theory Spec2Isabelle
  imports Main "HOL-Library.Multiset" "HOL-Library.Word"
begin

unbundle bit_operations_syntax

section \<open>The GPU batch-plan follower (nexus/backend/gpu_executor.cpp)\<close>

subsection \<open>Data\<close>

text \<open>
  A batch plan is read through \<open>plan->proto()\<close>; the fields the follower reads are kept.
  Times are nanoseconds since the clock's epoch.
\<close>

record BatchPlanContext =
  plan_id :: nat
  model_index :: nat
  exec_time_ns :: int
  expected_finish_time_ns :: int
  queries_size :: nat

text \<open>
  A model executor, as far as the follower looks at it: \<open>model()->model_index()\<close> and
  \<open>model()->model_session_id()\<close>. Two executors are the same object when both agree.
\<close>

record ModelExecutor =
  executor_model_index :: nat
  model_session_id :: string

datatype ErrorCode = kOk | kCancelled

text \<open>
  What the follower does to the outside: the messages of \<open>LOG(ERROR)\<close> and
  \<open>LOG(WARNING)\<close>, the call of \<open>model->ExecuteBatchPlan(plan)\<close> with the
  \<open>start_time\<close> read at the top of \<open>OnTimer\<close>, and the return of that call with
  the \<open>finish_time\<close> read right after it. The \<open>VLOG(1)\<close> lines are left out.
\<close>

datatype follower_event =
    LogError string
  | LogWarning string
  | ExecuteBatchPlan_called ModelExecutor BatchPlanContext int
  | ExecuteBatchPlan_returned ModelExecutor BatchPlanContext int

datatype check_failure = CheckFailed string

text \<open>
  The members of \<open>GpuExecutorPlanFollower\<close>. \<open>models\<close> is the vector
  \<open>models_\<close> (a null pointer is \<open>None\<close>), \<open>plans\<close> the vector \<open>plans_\<close>
  kept as a binary heap, \<open>is_executing\<close> the atomic flag. \<open>running\<close> holds the locals
  \<open>plan\<close>, \<open>model\<close> and \<open>start_time\<close> of an \<open>OnTimer\<close> that is
  inside \<open>ExecuteBatchPlan\<close>, and \<open>events\<close> is the record of what was done.
\<close>

text \<open>
  Modelled from the spec: the timer \<open>next_timer_\<close> of the event loop (ario's timer
  is not among the sources). \<open>timer_timeout\<close> is what \<open>timeout()\<close> returns, the
  deadline of the latest \<open>SetTimeout\<close>; \<open>timer_pending\<close> says that an
  \<open>AsyncWait\<close> is outstanding. Arming again replaces the outstanding wait, whose
  callback is delivered with an error code other than \<open>kOk\<close>.
\<close>

record GpuExecutorPlanFollower =
  models :: "ModelExecutor option list"
  plans :: "BatchPlanContext list"
  timer_timeout :: int
  timer_pending :: bool
  is_executing :: bool
  running :: "(ModelExecutor \<times> BatchPlanContext \<times> int) option"
  events :: "follower_event list"

subsection \<open>The heap order and the standard heap algorithms\<close>

definition OrderBatchPlanProtoByExecTimeDesc :: "BatchPlanContext \<Rightarrow> BatchPlanContext \<Rightarrow> bool" where
  "OrderBatchPlanProtoByExecTimeDesc lhs rhs \<longleftrightarrow> exec_time_ns lhs > exec_time_ns rhs"

text \<open>
  \<open>std::push_heap\<close> and \<open>std::pop_heap\<close> belong to the C++ standard library. They
  are embedded as the algorithms of GNU libstdc++ (\<open>bits/stl_heap.h\<close>) on the vector as
  a list: \<open>std_push_heap_loop\<close> is \<open>__push_heap\<close>, which moves a hole up while
  the parent compares before the value; \<open>std_adjust_loop\<close> is the \<open>while\<close> loop of
  \<open>__adjust_heap\<close>, which moves the hole down to the child that does not compare
  before its sibling. Indices are \<open>nat\<close>: \<open>(holeIndex - 1) / 2\<close> is \<open>0\<close> at the
  root in both readings, and the test \<open>(len & 1) == 0 && secondChild == (len - 2) / 2\<close>
  is written \<open>even len \<and> 2 * h + 2 = len\<close>, which also is false for \<open>len = 0\<close>.
\<close>

function std_push_heap_loop ::
  "('a \<Rightarrow> 'a \<Rightarrow> bool) \<Rightarrow> 'a list \<Rightarrow> nat \<Rightarrow> nat \<Rightarrow> 'a \<Rightarrow> 'a list" where
  "std_push_heap_loop cmp xs holeIndex topIndex v =
     (if holeIndex > topIndex \<and> cmp (xs ! ((holeIndex - 1) div 2)) v
      then std_push_heap_loop cmp (xs[holeIndex := xs ! ((holeIndex - 1) div 2)])
             ((holeIndex - 1) div 2) topIndex v
      else xs[holeIndex := v])"
  by pat_completeness auto
termination
  by (relation "measure (\<lambda>(cmp, xs, holeIndex, topIndex, v). holeIndex)") auto

declare std_push_heap_loop.simps [simp del]

definition std_push_heap :: "('a \<Rightarrow> 'a \<Rightarrow> bool) \<Rightarrow> 'a list \<Rightarrow> 'a list" where
  "std_push_heap cmp xs =
     (if xs = [] then xs
      else std_push_heap_loop cmp xs (length xs - 1) 0 (xs ! (length xs - 1)))"

definition second_child :: "('a \<Rightarrow> 'a \<Rightarrow> bool) \<Rightarrow> 'a list \<Rightarrow> nat \<Rightarrow> nat" where
  "second_child cmp xs holeIndex =
     (if cmp (xs ! (2 * (holeIndex + 1))) (xs ! (2 * (holeIndex + 1) - 1))
      then 2 * (holeIndex + 1) - 1 else 2 * (holeIndex + 1))"

function std_adjust_loop ::
  "('a \<Rightarrow> 'a \<Rightarrow> bool) \<Rightarrow> 'a list \<Rightarrow> nat \<Rightarrow> nat \<Rightarrow> 'a list \<times> nat" where
  "std_adjust_loop cmp xs holeIndex len =
     (if holeIndex < (len - 1) div 2
      then std_adjust_loop cmp (xs[holeIndex := xs ! second_child cmp xs holeIndex])
             (second_child cmp xs holeIndex) len
      else (xs, holeIndex))"
  by pat_completeness auto
termination
  by (relation "measure (\<lambda>(cmp, xs, holeIndex, len). len - holeIndex)")
     (auto simp: second_child_def)

declare std_adjust_loop.simps [simp del]

definition std_adjust_heap ::
  "('a \<Rightarrow> 'a \<Rightarrow> bool) \<Rightarrow> 'a list \<Rightarrow> nat \<Rightarrow> nat \<Rightarrow> 'a \<Rightarrow> 'a list" where
  "std_adjust_heap cmp xs holeIndex len v =
     (case std_adjust_loop cmp xs holeIndex len of
        (ys, h) \<Rightarrow>
          if even len \<and> 2 * h + 2 = len
          then std_push_heap_loop cmp (ys[h := ys ! (2 * (h + 1) - 1)])
                 (2 * (h + 1) - 1) holeIndex v
          else std_push_heap_loop cmp ys h holeIndex v)"

definition std_pop_heap :: "('a \<Rightarrow> 'a \<Rightarrow> bool) \<Rightarrow> 'a list \<Rightarrow> 'a list" where
  "std_pop_heap cmp xs =
     (if length xs > 1
      then std_adjust_heap cmp (xs[length xs - 1 := xs ! 0]) 0 (length xs - 1)
             (xs ! (length xs - 1))
      else xs)"

subsection \<open>The operations\<close>

text \<open>
  The follower as constructed: no model, no plan, the flag clear, no call running;
  \<open>t0\<close> is what the timer's \<open>timeout()\<close> returns before the first \<open>SetTimeout\<close>.
\<close>

definition follower_init :: "int \<Rightarrow> GpuExecutorPlanFollower" where
  "follower_init t0 =
     \<lparr>models = [], plans = [], timer_timeout = t0, timer_pending = False,
      is_executing = False, running = None, events = []\<rparr>"

text \<open>\<open>models_.resize(n)\<close> where the vector is shorter than \<open>n\<close>.\<close>

definition resize_models :: "nat \<Rightarrow> ModelExecutor option list \<Rightarrow> ModelExecutor option list" where
  "resize_models n ms = ms @ replicate (n - length ms) None"

definition AddModel ::
  "ModelExecutor \<Rightarrow> GpuExecutorPlanFollower \<Rightarrow> check_failure + GpuExecutorPlanFollower" where
  "AddModel model f =
     (let idx = executor_model_index model;
          ms = (if length (models f) \<le> idx then resize_models (idx + 1) (models f)
                else models f)
      in if ms ! idx \<noteq> None then Inl (CheckFailed ''!models_[model_index.t]'')
         else Inr (f\<lparr>models := ms[idx := Some model]\<rparr>))"

definition RemoveModel ::
  "ModelExecutor \<Rightarrow> GpuExecutorPlanFollower \<Rightarrow> check_failure + GpuExecutorPlanFollower" where
  "RemoveModel model f =
     (let idx = executor_model_index model
      in if \<not> length (models f) > idx then Inl (CheckFailed ''models_.size() > model_index'')
         else if models f ! idx = None
         then Inl (CheckFailed ''models_[model_index.t] != nullptr'')
         else Inr (f\<lparr>models := (models f)[idx := None]\<rparr>))"

definition UpdateTimer :: "GpuExecutorPlanFollower \<Rightarrow> GpuExecutorPlanFollower" where
  "UpdateTimer f =
     (if plans f = [] then f
      else if exec_time_ns (plans f ! 0) \<noteq> timer_timeout f
      then f\<lparr>timer_timeout := exec_time_ns (plans f ! 0), timer_pending := True\<rparr>
      else f)"

definition AddBatchPlan :: "BatchPlanContext \<Rightarrow> GpuExecutorPlanFollower \<Rightarrow> GpuExecutorPlanFollower" where
  "AddBatchPlan plan f =
     UpdateTimer (f\<lparr>plans := std_push_heap OrderBatchPlanProtoByExecTimeDesc (plans f @ [plan])\<rparr>)"

text \<open>
  \<open>duration_cast<microseconds>\<close> of a nanosecond count and the division
  \<open>(...) / 1000\<close> on signed integers both round towards zero.
\<close>

definition ns_to_us :: "int \<Rightarrow> int" where
  "ns_to_us d = sgn d * (\<bar>d\<bar> div 1000)"

text \<open>
  \<open>OnTimer\<close> up to and including the call \<open>model->ExecuteBatchPlan(plan)\<close>
  (lines 100 to 145). \<open>start_time\<close> is the value of \<open>Clock::now()\<close> at line 105.
  A failed \<open>CHECK\<close> ends the process.
\<close>

definition OnTimer_enter ::
  "ErrorCode \<Rightarrow> int \<Rightarrow> GpuExecutorPlanFollower \<Rightarrow> check_failure + GpuExecutorPlanFollower" where
  "OnTimer_enter error start_time f =
     (if error \<noteq> kOk then Inr f
      else if plans f = []
      then Inr (f\<lparr>events := events f @ [LogError ''Woke up without batch plan to run.'']\<rparr>)
      else
        let heap = std_pop_heap OrderBatchPlanProtoByExecTimeDesc (plans f);
            plan = last heap;
            f1 = f\<lparr>plans := butlast heap\<rparr>;
            start_delay_us = ns_to_us (start_time - exec_time_ns plan)
        in if length (models f1) \<le> model_index plan \<or> models f1 ! model_index plan = None
           then Inr (UpdateTimer (f1\<lparr>events := events f1 @ [LogError ''Cannot find ModelIndex'']\<rparr>))
           else
             let model = the (models f1 ! model_index plan);
                 f2 = (if start_delay_us > 100
                       then f1\<lparr>events := events f1 @ [LogWarning ''Huge start_delay.'']\<rparr>
                       else f1)
             in if is_executing f2
                then Inl (CheckFailed ''BUG: the backend has not finished the previous batch.'')
                else Inr (f2\<lparr>is_executing := True,
                              running := Some (model, plan, start_time),
                              events := events f2 @ [ExecuteBatchPlan_called model plan start_time]\<rparr>))"

text \<open>
  The rest of \<open>OnTimer\<close> (lines 146 to 166), once \<open>ExecuteBatchPlan\<close> has returned;
  \<open>finish_time\<close> is the value of \<open>Clock::now()\<close> at line 146.
\<close>

definition OnTimer_resume :: "int \<Rightarrow> GpuExecutorPlanFollower \<Rightarrow> GpuExecutorPlanFollower" where
  "OnTimer_resume finish_time f =
     (case running f of
        None \<Rightarrow> f
      | Some (model, plan, start_time) \<Rightarrow>
          let f1 = f\<lparr>events := events f @ [ExecuteBatchPlan_returned model plan finish_time]\<rparr>;
              finish_delay_us = ns_to_us (finish_time - expected_finish_time_ns plan);
              f2 = (if finish_delay_us > 100
                    then f1\<lparr>events := events f1 @ [LogWarning ''Huge finish_delay.'']\<rparr>
                    else f1)
          in (UpdateTimer f2)\<lparr>is_executing := False, running := None\<rparr>)"

text \<open>
  What can happen to a follower, one entry per step: a call of \<open>AddModel\<close>,
  \<open>RemoveModel\<close> or \<open>AddBatchPlan\<close> from any thread, the timer callback, and the
  return of \<open>ExecuteBatchPlan\<close> into the \<open>OnTimer\<close> that called it. The calls
  from other threads and a further timer callback may come while \<open>ExecuteBatchPlan\<close>
  runs.
\<close>

datatype follower_input =
    Call_AddModel ModelExecutor
  | Call_RemoveModel ModelExecutor
  | Call_AddBatchPlan BatchPlanContext
  | Timer_callback ErrorCode int
  | ExecuteBatchPlan_returns int

datatype follower_stop = Process_aborted check_failure | Not_enabled

definition lift_check :: "check_failure + GpuExecutorPlanFollower \<Rightarrow> follower_stop + GpuExecutorPlanFollower" where
  "lift_check r = (case r of Inl e \<Rightarrow> Inl (Process_aborted e) | Inr f \<Rightarrow> Inr f)"

text \<open>
  Modelled from the spec: the timer's contract (ario's timer is not among the sources).
  A callback with \<open>kOk\<close> comes only for an outstanding wait, at or after its deadline,
  and uses the wait up; a callback with another error code may come at any time. A step
  the environment cannot take is \<open>Not_enabled\<close>.
\<close>

definition follower_step ::
  "follower_input \<Rightarrow> GpuExecutorPlanFollower \<Rightarrow> follower_stop + GpuExecutorPlanFollower" where
  "follower_step i f =
     (case i of
        Call_AddModel m \<Rightarrow> lift_check (AddModel m f)
      | Call_RemoveModel m \<Rightarrow> lift_check (RemoveModel m f)
      | Call_AddBatchPlan p \<Rightarrow> Inr (AddBatchPlan p f)
      | Timer_callback error now \<Rightarrow>
          if error = kOk
          then (if timer_pending f \<and> timer_timeout f \<le> now
                then lift_check (OnTimer_enter kOk now (f\<lparr>timer_pending := False\<rparr>))
                else Inl Not_enabled)
          else lift_check (OnTimer_enter error now f)
      | ExecuteBatchPlan_returns now \<Rightarrow>
          if running f = None then Inl Not_enabled else Inr (OnTimer_resume now f))"

fun follower_run ::
  "follower_input list \<Rightarrow> GpuExecutorPlanFollower \<Rightarrow> follower_stop + GpuExecutorPlanFollower" where
  "follower_run [] f = Inr f"
| "follower_run (i # ins) f =
     (case follower_step i f of Inl e \<Rightarrow> Inl e | Inr f' \<Rightarrow> follower_run ins f')"

text \<open>Readings of the record of events.\<close>

fun called_on_time :: "follower_event \<Rightarrow> bool" where
  "called_on_time (ExecuteBatchPlan_called m p t) \<longleftrightarrow> exec_time_ns p \<le> t"
| "called_on_time _ \<longleftrightarrow> True"

fun is_call :: "follower_event \<Rightarrow> bool" where
  "is_call (ExecuteBatchPlan_called m p t) \<longleftrightarrow> True"
| "is_call _ \<longleftrightarrow> False"

fun is_return :: "follower_event \<Rightarrow> bool" where
  "is_return (ExecuteBatchPlan_returned m p t) \<longleftrightarrow> True"
| "is_return _ \<longleftrightarrow> False"

text \<open>The number of \<open>ExecuteBatchPlan\<close> calls that have started and not returned.\<close>

definition executing_now :: "follower_event list \<Rightarrow> int" where
  "executing_now es = int (length (filter is_call es)) - int (length (filter is_return es))"

fun executed_plans :: "follower_event list \<Rightarrow> BatchPlanContext list" where
  "executed_plans [] = []"
| "executed_plans (ExecuteBatchPlan_called m p t # es) = p # executed_plans es"
| "executed_plans (_ # es) = executed_plans es"

text \<open>
  The heap property of \<open>std::is_heap\<close> for this order on the first \<open>len\<close> entries (no
  parent compares before its child, that is, no parent has a later \<open>exec_time_ns\<close>), and the
  same with a hole at \<open>h\<close> that is to take \<open>v\<close>: every edge but the one into the hole
  holds, and the children of the hole are no earlier than \<open>v\<close> and than the hole's parent.
\<close>

definition heap_upto :: "nat \<Rightarrow> BatchPlanContext list \<Rightarrow> bool" where
  "heap_upto len xs \<longleftrightarrow>
     (\<forall>i. 0 < i \<and> i < len \<longrightarrow> exec_time_ns (xs ! ((i - 1) div 2)) \<le> exec_time_ns (xs ! i))"

definition is_heap :: "BatchPlanContext list \<Rightarrow> bool" where
  "is_heap xs \<longleftrightarrow> heap_upto (length xs) xs"

definition hole_inv :: "nat \<Rightarrow> BatchPlanContext list \<Rightarrow> nat \<Rightarrow> BatchPlanContext \<Rightarrow> bool" where
  "hole_inv len xs h v \<longleftrightarrow>
     (\<forall>i. 0 < i \<and> i < len \<and> i \<noteq> h \<longrightarrow>
        exec_time_ns (xs ! ((i - 1) div 2)) \<le> exec_time_ns (xs ! i)) \<and>
     (\<forall>i. 0 < i \<and> i < len \<and> (i - 1) div 2 = h \<longrightarrow>
        exec_time_ns v \<le> exec_time_ns (xs ! i)) \<and>
     (\<forall>i. 0 < i \<and> i < len \<and> (i - 1) div 2 = h \<and> 0 < h \<longrightarrow>
        exec_time_ns (xs ! ((h - 1) div 2)) \<le> exec_time_ns (xs ! i))"

text \<open>
  What holds of a follower between any two steps: the pending plans form a heap, an
  outstanding timer wait is for the deadline of the heap's top, the flag is set exactly while
  an \<open>ExecuteBatchPlan\<close> call is running, and no call so far started before its plan's
  \<open>exec_time_ns\<close>.
\<close>

definition follower_inv :: "GpuExecutorPlanFollower \<Rightarrow> bool" where
  "follower_inv f \<longleftrightarrow>
     is_heap (plans f) \<and>
     (timer_pending f \<longrightarrow> plans f \<noteq> [] \<and> exec_time_ns (plans f ! 0) = timer_timeout f) \<and>
     (is_executing f \<longleftrightarrow> running f \<noteq> None) \<and>
     executing_now (events f) = (if is_executing f then 1 else 0) \<and>
     list_all called_on_time (events f)"

text \<open>Executors and plans that serve as concrete inputs.\<close>

definition executor_at :: "nat \<Rightarrow> string \<Rightarrow> ModelExecutor" where
  "executor_at i name = \<lparr>executor_model_index = i, model_session_id = name\<rparr>"

definition plan_at :: "nat \<Rightarrow> nat \<Rightarrow> int \<Rightarrow> BatchPlanContext" where
  "plan_at n i t = \<lparr>plan_id = n, model_index = i, exec_time_ns = t,
                    expected_finish_time_ns = t + 50, queries_size = 1\<rparr>"

section \<open>The dispatch ingress (nexus/dispatcher/model_worker.cpp)\<close>

text \<open>
  The messages are protocol buffers whose definitions are not among the sources; the fields the
  ingress reads and writes are kept. \<open>CtrlStatus\<close> has the member \<open>CTRL_OK\<close> and others,
  kept by number.
\<close>

datatype CtrlStatus = CTRL_OK | CTRL_other nat

record QueryPunchClock =
  dispatcher_recv_ns :: int
  dispatcher_sched_ns :: int
  other_clock_fields :: "int list"

record QueryProto =
  global_id :: nat
  clock :: QueryPunchClock

record DispatchRequest =
  request_model_index :: nat
  request_query_id :: nat
  query_without_input :: QueryProto

record DispatchReply_Query =
  reply_query_id :: nat
  reply_clock :: QueryPunchClock

record DispatchReply =
  status :: CtrlStatus
  reply_model_index :: nat
  query_list :: "DispatchReply_Query list"

datatype ControlMessage =
    kDispatch DispatchRequest
  | kDispatchReply DispatchReply
  | kOtherMessage nat


text \<open>
  Modelled from the spec: \<open>global_id_issuer_.Next()\<close> hands out increasing identifiers
  (the issuer is not among the sources); \<open>global_id_issuer\<close> is the next one to hand out.
  The other member of \<open>ModelWorker\<close> that \<open>HandleDispatch\<close> uses is the table of
  entrances; an entrance (\<open>MultiThreadRankScheduler::RequestEntrance\<close>) is of a type
  \<open>'e\<close> the sources do not define.
\<close>

record 'e ModelWorker =
  model_session_entrance_table :: "'e list"
  global_id_issuer :: nat


text \<open>\<open>AddModelSession\<close>, as the task it posts to the event loop runs.\<close>

definition AddModelSession :: "'e \<Rightarrow> nat \<Rightarrow> 'e \<Rightarrow> 'e ModelWorker \<Rightarrow> 'e ModelWorker" where
  "AddModelSession default_entrance entrance_model_index entrance w =
     (let t = model_session_entrance_table w;
          t1 = (if length t \<le> entrance_model_index
                then t @ replicate (entrance_model_index + 1 - length t) default_entrance
                else t)
      in w\<lparr>model_session_entrance_table := t1[entrance_model_index := entrance]\<rparr>)"









section \<open>The RDMA connection (ario/rdma.cpp)\<close>

subsection \<open>Handshake messages and queue-pair attributes\<close>

record ibv_gid =
  subnet_prefix :: "64 word"
  interface_id :: "64 word"

record ConnInfo =
  lid :: "16 word"
  gid :: ibv_gid
  qp_num :: "32 word"

record MemoryRegion =
  addr :: "64 word"
  mr_size :: "64 word"
  rkey :: "32 word"

text \<open>
  The handshake message read from the TCP socket. Its type field may hold any number; the
  payload is a union, read as \<open>payload.conn\<close> or as \<open>payload.mr\<close>.
\<close>

datatype MessageType = kConnInfo | kMemoryRegion | kUnknownType nat

record RdmaConnectorMessage =
  msg_type :: MessageType
  payload_conn :: ConnInfo
  payload_mr :: MemoryRegion

text \<open>
  The parts of \<open>ibv_qp_attr\<close> and of the attribute mask (libibverbs) that the two
  transitions use, each field with the width it has in \<open>verbs.h\<close>: \<open>port_num\<close>,
  \<open>is_global\<close>, \<open>hop_limit\<close>, \<open>max_dest_rd_atomic\<close>, \<open>min_rnr_timer\<close>,
  \<open>timeout\<close>, \<open>retry_cnt\<close>, \<open>rnr_retry\<close> and \<open>max_rd_atomic\<close> are
  \<open>uint8_t\<close>, \<open>dlid\<close> is \<open>uint16_t\<close>, the queue-pair and packet sequence numbers
  are \<open>uint32_t\<close>. The enumeration \<open>ibv_mtu\<close> is kept by number: \<open>IBV_MTU_1024\<close>
  is \<open>3\<close>. The mask is a disjunction of bits, one per group of attributes that
  \<open>ibv_modify_qp\<close> is to apply; it is kept as the set of its bits.
\<close>

datatype ibv_qp_state =
  IBV_QPS_RESET | IBV_QPS_INIT | IBV_QPS_RTR | IBV_QPS_RTS | IBV_QPS_SQD | IBV_QPS_SQE | IBV_QPS_ERR

datatype ibv_qp_attr_mask =
    IBV_QP_STATE | IBV_QP_AV | IBV_QP_PATH_MTU | IBV_QP_DEST_QPN | IBV_QP_RQ_PSN
  | IBV_QP_MAX_DEST_RD_ATOMIC | IBV_QP_MIN_RNR_TIMER | IBV_QP_SQ_PSN | IBV_QP_TIMEOUT
  | IBV_QP_RETRY_CNT | IBV_QP_RNR_RETRY | IBV_QP_MAX_QP_RD_ATOMIC

record ibv_ah_attr =
  ah_port_num :: "8 word"
  dlid :: "16 word"
  is_global :: "8 word"
  grh_dgid :: ibv_gid
  grh_hop_limit :: "8 word"

record ibv_qp_attr =
  qp_state :: ibv_qp_state
  path_mtu :: nat
  dest_qp_num :: "32 word"
  rq_psn :: "32 word"
  sq_psn :: "32 word"
  max_dest_rd_atomic :: "8 word"
  min_rnr_timer :: "8 word"
  ah_attr :: ibv_ah_attr
  timeout :: "8 word"
  retry_cnt :: "8 word"
  rnr_retry :: "8 word"
  max_rd_atomic :: "8 word"

definition IBV_MTU_1024 :: nat where
  "IBV_MTU_1024 = 3"

definition ibv_mtu_bytes :: "nat \<Rightarrow> nat option" where
  "ibv_mtu_bytes m =
     (if m = 1 then Some 256 else if m = 2 then Some 512 else if m = 3 then Some 1024
      else if m = 4 then Some 2048 else if m = 5 then Some 4096 else None)"

text \<open>\<open>memset(&attr, 0, sizeof(attr))\<close>.\<close>

definition zero_qp_attr :: ibv_qp_attr where
  "zero_qp_attr =
     \<lparr>qp_state = IBV_QPS_RESET, path_mtu = 0, dest_qp_num = 0, rq_psn = 0, sq_psn = 0,
      max_dest_rd_atomic = 0, min_rnr_timer = 0,
      ah_attr = \<lparr>ah_port_num = 0, dlid = 0, is_global = 0,
                 grh_dgid = \<lparr>subnet_prefix = 0, interface_id = 0\<rparr>, grh_hop_limit = 0\<rparr>,
      timeout = 0, retry_cnt = 0, rnr_retry = 0, max_rd_atomic = 0\<rparr>"

text \<open>
  The attributes \<open>TransitQueuePairToRTR\<close> builds (lines 306 to 325) and its mask (lines
  327 to 330). \<open>dev_port_\<close> is an \<open>int\<close>, kept by its 32 bits; the assignment to the
  \<open>uint8_t\<close> \<open>ah_attr.port_num\<close> keeps its low 8 bits. The assignment of \<open>true\<close>
  to the \<open>uint8_t\<close> \<open>is_global\<close> stores \<open>1\<close>.
\<close>

definition RTR_attr :: "32 word \<Rightarrow> ConnInfo \<Rightarrow> ibv_qp_attr" where
  "RTR_attr dev_port msg =
     (let attr = zero_qp_attr
            \<lparr>qp_state := IBV_QPS_RTR,
             ah_attr := (ah_attr zero_qp_attr)\<lparr>ah_port_num := ucast dev_port, dlid := lid msg\<rparr>,
             path_mtu := IBV_MTU_1024,
             dest_qp_num := qp_num msg,
             rq_psn := 0,
             max_dest_rd_atomic := 1,
             min_rnr_timer := 12\<rparr>
      in if lid msg \<noteq> 0
         then attr\<lparr>ah_attr := (ah_attr attr)\<lparr>dlid := lid msg\<rparr>\<rparr>
         else attr\<lparr>ah_attr := (ah_attr attr)\<lparr>is_global := 1, grh_dgid := gid msg,
                                              grh_hop_limit := 1\<rparr>\<rparr>)"

definition RTR_mask :: "ibv_qp_attr_mask set" where
  "RTR_mask = {IBV_QP_STATE, IBV_QP_AV, IBV_QP_PATH_MTU, IBV_QP_DEST_QPN, IBV_QP_RQ_PSN,
               IBV_QP_MAX_DEST_RD_ATOMIC, IBV_QP_MIN_RNR_TIMER}"

text \<open>
  The attributes \<open>TransitQueuePairToRTS\<close> builds (lines 335 to 344) and its mask (lines
  346 to 349).
\<close>

definition RTS_attr :: ibv_qp_attr where
  "RTS_attr = zero_qp_attr\<lparr>qp_state := IBV_QPS_RTS, timeout := 8, retry_cnt := 7,
                           rnr_retry := 7, max_rd_atomic := 1\<rparr>"

definition RTS_mask :: "ibv_qp_attr_mask set" where
  "RTS_mask = {IBV_QP_STATE, IBV_QP_SQ_PSN, IBV_QP_TIMEOUT, IBV_QP_RETRY_CNT, IBV_QP_RNR_RETRY,
               IBV_QP_MAX_QP_RD_ATOMIC}"

subsection \<open>Work requests, completions and the connection\<close>

datatype PollerType = kBlocking | kSpinning

text \<open>
  Modelled from the spec: the buffer pool and its owned blocks (the pool, the block handle and
  the message view are not among the sources). A handle names one block of the pool; a handle
  that was moved from holds nothing (\<open>None\<close> below). A block starts with a header
  \<open>{u32 bytes_length}\<close> of four bytes, followed by the payload; the connection's
  \<open>block_header\<close> is that field of each block. \<open>Allocate\<close> hands out a block no live
  handle holds; blocks are numbered as they are handed out, and giving blocks back is not
  followed.
\<close>

record OwnedMemoryBlock =
  block :: nat

record WorkRequestContext =
  buf :: "OwnedMemoryBlock option"

record ibv_sge =
  sge_addr :: "64 word"
  sge_length :: "32 word"
  lkey :: "32 word"

record ibv_recv_wr =
  recv_wr_id :: "64 word"
  recv_sg_list :: "ibv_sge list"

datatype ibv_wr_opcode = IBV_WR_SEND | IBV_WR_RDMA_READ

record ibv_send_wr =
  send_wr_id :: "64 word"
  opcode :: ibv_wr_opcode
  send_sg_list :: "ibv_sge list"
  send_signaled :: bool
  rdma_remote_addr :: "64 word"
  rdma_rkey :: "32 word"

text \<open>
  A work completion: \<open>wc_status\<close> is \<open>0\<close> for \<open>IBV_WC_SUCCESS\<close>; the opcodes are
  those of libibverbs, \<open>IBV_WC_RECV\<close> being the bit \<open>1 << 7\<close>.
\<close>

record ibv_wc =
  wc_wr_id :: "64 word"
  wc_status :: nat
  wc_opcode :: "32 word"

definition IBV_WC_SUCCESS :: nat where "IBV_WC_SUCCESS = 0"
definition IBV_WC_SEND :: "32 word" where "IBV_WC_SEND = 0"
definition IBV_WC_RDMA_WRITE :: "32 word" where "IBV_WC_RDMA_WRITE = 1"
definition IBV_WC_RDMA_READ :: "32 word" where "IBV_WC_RDMA_READ = 2"
definition IBV_WC_RECV :: "32 word" where "IBV_WC_RECV = 128"

definition kRdmaBufferBlockBits :: nat where "kRdmaBufferBlockBits = 20"

text \<open>
  What a connection does to the outside, in order: lines written to \<open>stderr\<close>, entries put
  into \<open>wr_ctx_\<close>, verbs called, threads started, TCP operations started
  (\<open>Tcp_AsyncWrite_MemoryRegion\<close> is the write of a message of type
  \<open>kMemoryRegion\<close> with this payload), the store to \<open>is_connected_\<close>, completions
  taken by the poller, and the calls of the application's handler. \<open>Handler_OnError\<close> is
  the handler operation the spec calls \<open>on_error\<close>.
\<close>

datatype conn_event =
    Stderr string
  | Ctx_emplace "64 word" OwnedMemoryBlock
  | Call_ibv_post_recv ibv_recv_wr
  | Call_ibv_post_send ibv_send_wr
  | Call_ibv_modify_qp ibv_qp_attr "ibv_qp_attr_mask set"
  | Call_ibv_query_qp
  | Call_ibv_req_notify_cq
  | Start_poller_thread PollerType
  | Tcp_AsyncWrite_MemoryRegion MemoryRegion
  | Tcp_AsyncRead MessageType
  | Store_is_connected bool
  | Polled ibv_wc
  | Handler_OnConnected
  | Handler_OnRecv "OwnedMemoryBlock option"
  | Handler_OnSent "OwnedMemoryBlock option"
  | Handler_OnRdmaReadComplete "OwnedMemoryBlock option"
  | Handler_OnError nat

text \<open>
  The members of \<open>Connection\<close> that the operations below use. \<open>is_server\<close> says that
  \<open>memory_region_\<close> is not null, \<open>exposed_mr\<close> is the registered region
  \<open>rdma_remote_mr_\<close> as the peer is told of it, \<open>local_lkey\<close> is
  \<open>local_mr_->lkey\<close>, \<open>local_buf_data\<close> the address of the pool.
\<close>

record Connection =
  is_connected :: bool
  is_server :: bool
  poller_type :: PollerType
  dev_port :: "32 word"
  next_wr_id :: "64 word"
  wr_ctx :: "64 word \<rightharpoonup> WorkRequestContext"
  remote_mr :: MemoryRegion
  exposed_mr :: MemoryRegion
  local_lkey :: "32 word"
  local_buf_data :: "64 word"
  blocks_handed_out :: nat
  block_header :: "nat \<Rightarrow> 32 word"
  trace :: "conn_event list"

text \<open>
  What the verbs and the device answer: the return value of each verb the connection calls,
  and the queue-pair state \<open>ibv_query_qp\<close> reports.
\<close>

record verbs =
  ibv_modify_qp :: "ibv_qp_attr \<Rightarrow> ibv_qp_attr_mask set \<Rightarrow> int"
  ibv_query_qp :: int
  queried_qp_state :: ibv_qp_state
  ibv_req_notify_cq :: int
  ibv_post_recv :: "ibv_recv_wr \<Rightarrow> int"
  ibv_post_send :: "ibv_send_wr \<Rightarrow> int"

text \<open>
  An operation returns, or ends the process through \<open>die\<close> (\<open>ario/utils.h\<close>, not among
  the sources) with a message; the connection as it was then is kept.
\<close>

datatype conn_end = Returned Connection | Died string Connection

fun connection_of :: "conn_end \<Rightarrow> Connection" where
  "connection_of (Returned c) = c"
| "connection_of (Died msg c) = c"

definition and_then :: "conn_end \<Rightarrow> (Connection \<Rightarrow> conn_end) \<Rightarrow> conn_end" where
  "and_then r k = (case r of Returned c \<Rightarrow> k c | Died msg c \<Rightarrow> Died msg c)"

definition emit :: "conn_event list \<Rightarrow> Connection \<Rightarrow> Connection" where
  "emit es c = c\<lparr>trace := trace c @ es\<rparr>"

definition Allocate :: "Connection \<Rightarrow> OwnedMemoryBlock \<times> Connection" where
  "Allocate c = (\<lparr>block = blocks_handed_out c\<rparr>, c\<lparr>blocks_handed_out := blocks_handed_out c + 1\<rparr>)"

definition block_data :: "Connection \<Rightarrow> OwnedMemoryBlock \<Rightarrow> 64 word" where
  "block_data c b = local_buf_data c + of_nat (block b) * 2 ^ kRdmaBufferBlockBits"

text \<open>\<open>wr_ctx_.emplace(wr_id, buf)\<close>: a key that is present keeps its entry.\<close>

definition emplace ::
  "64 word \<Rightarrow> OwnedMemoryBlock \<Rightarrow> (64 word \<rightharpoonup> WorkRequestContext) \<Rightarrow> (64 word \<rightharpoonup> WorkRequestContext)" where
  "emplace wr_id b m = (if wr_id \<in> dom m then m else m(wr_id \<mapsto> \<lparr>buf = Some b\<rparr>))"

definition PostReceive :: "verbs \<Rightarrow> Connection \<Rightarrow> conn_end" where
  "PostReceive V c =
     (let wr_id = next_wr_id c;
          c1 = c\<lparr>next_wr_id := next_wr_id c + 1\<rparr>;
          b = fst (Allocate c1);
          c2 = snd (Allocate c1);
          sge = \<lparr>sge_addr = block_data c2 b, sge_length = 2 ^ kRdmaBufferBlockBits,
                 lkey = local_lkey c2\<rparr>;
          wr = \<lparr>recv_wr_id = wr_id, recv_sg_list = [sge]\<rparr>;
          c3 = emit [Ctx_emplace wr_id b, Stderr ''POST --> (RECV WR)'', Call_ibv_post_recv wr]
                 (c2\<lparr>wr_ctx := emplace wr_id b (wr_ctx c2)\<rparr>)
      in if ibv_post_recv V wr \<noteq> 0 then Died ''ibv_post_recv'' c3 else Returned c3)"

definition AsyncSend :: "verbs \<Rightarrow> OwnedMemoryBlock \<Rightarrow> Connection \<Rightarrow> conn_end" where
  "AsyncSend V b c =
     (if \<not> is_connected c then Died ''Send: not connected.'' c
      else
        let wr_id = next_wr_id c;
            c1 = c\<lparr>next_wr_id := next_wr_id c + 1\<rparr>;
            sge = \<lparr>sge_addr = block_data c1 b, sge_length = block_header c1 (block b) + 4,
                   lkey = local_lkey c1\<rparr>;
            wr = \<lparr>send_wr_id = wr_id, opcode = IBV_WR_SEND, send_sg_list = [sge],
                  send_signaled = True, rdma_remote_addr = 0, rdma_rkey = 0\<rparr>;
            c2 = emit [Ctx_emplace wr_id b, Call_ibv_post_send wr]
                   (c1\<lparr>wr_ctx := emplace wr_id b (wr_ctx c1)\<rparr>)
        in if ibv_post_send V wr \<noteq> 0 then Died ''Connection::Send: ibv_post_send'' c2
           else Returned (emit [Stderr ''POST --> (SEND WR)''] c2))"

text \<open>
  \<open>AsyncRead(offset, length)\<close>; both are \<open>size_t\<close>, and \<open>sge.length\<close> and the header's
  \<open>bytes_length\<close> are 32 bits wide.
\<close>

definition AsyncRead :: "verbs \<Rightarrow> 64 word \<Rightarrow> 64 word \<Rightarrow> Connection \<Rightarrow> conn_end" where
  "AsyncRead V offset len c =
     (let wr_id = next_wr_id c;
          c1 = c\<lparr>next_wr_id := next_wr_id c + 1\<rparr>;
          b = fst (Allocate c1);
          c2 = snd (Allocate c1);
          sge = \<lparr>sge_addr = block_data c2 b + 4, sge_length = ucast len,
                 lkey = local_lkey c2\<rparr>;
          wr = \<lparr>send_wr_id = wr_id, opcode = IBV_WR_RDMA_READ, send_sg_list = [sge],
                send_signaled = True, rdma_remote_addr = addr (remote_mr c2) + offset,
                rdma_rkey = rkey (remote_mr c2)\<rparr>;
          c3 = c2\<lparr>block_header := (block_header c2)(block b := ucast len)\<rparr>;
          c4 = emit [Ctx_emplace wr_id b, Call_ibv_post_send wr]
                 (c3\<lparr>wr_ctx := emplace wr_id b (wr_ctx c3)\<rparr>)
      in if ibv_post_send V wr \<noteq> 0 then Died ''Connection::PostRead: ibv_post_send'' c4
         else Returned (emit [Stderr ''POST --> (READ WR)''] c4))"

text \<open>
  \<open>HandleWorkCompletion\<close>, called by the poller thread with each completion it polled.
  \<open>wr_ctx = std::move(iter->second)\<close> moves the context out of the table's entry; the entry
  itself stays, with the handle that was moved from.
\<close>

definition HandleWorkCompletion :: "verbs \<Rightarrow> ibv_wc \<Rightarrow> Connection \<Rightarrow> conn_end" where
  "HandleWorkCompletion V wc c0 =
     (let c = emit [Polled wc] c0
      in if wc_status wc \<noteq> IBV_WC_SUCCESS
         then Died ''wc->status != IBV_WC_SUCCESS'' (emit [Stderr ''COMPLETION FAILURE''] c)
         else
           case wr_ctx c (wc_wr_id wc) of
             None \<Rightarrow> Died ''wc->wr_id not in wr_ctx_''
                       (emit [Stderr ''Cannot find context for wr_id''] c)
           | Some entry \<Rightarrow>
               let c1 = c\<lparr>wr_ctx := (wr_ctx c)(wc_wr_id wc \<mapsto> \<lparr>buf = None\<rparr>)\<rparr>
               in if wc_opcode wc AND IBV_WC_RECV \<noteq> 0
                  then and_then (PostReceive V c1)
                         (\<lambda>c2. Returned (emit [Handler_OnRecv (buf entry)] c2))
                  else if wc_opcode wc = IBV_WC_SEND
                  then Returned (emit [Handler_OnSent (buf entry)] c1)
                  else if wc_opcode wc = IBV_WC_RDMA_READ
                  then Returned (emit [Handler_OnRdmaReadComplete (buf entry)] c1)
                  else Returned (emit [Stderr ''Unknown wc->opcode''] c1))"

text \<open>The loop \<open>for (i = 0; i < kRecvBacklog; ++i) PostReceive()\<close>.\<close>

fun post_receives :: "verbs \<Rightarrow> nat \<Rightarrow> Connection \<Rightarrow> conn_end" where
  "post_receives V 0 c = Returned c"
| "post_receives V (Suc n) c = and_then (PostReceive V c) (post_receives V n)"

text \<open>
  \<open>MarkConnected\<close>. The constant \<open>kRecvBacklog\<close> is declared in a header that is not
  among the sources; it is a parameter.
\<close>

definition MarkConnected :: "verbs \<Rightarrow> nat \<Rightarrow> Connection \<Rightarrow> conn_end" where
  "MarkConnected V kRecvBacklog c =
     (let c1 = emit [Call_ibv_query_qp] c
      in if ibv_query_qp V \<noteq> 0 then Died ''ibv_query_qp'' c1
         else
           let c2 = emit [Stderr ''qp_state: ...''] c1
           in if queried_qp_state V \<noteq> IBV_QPS_RTS then Died ''attr.qp_state != IBV_QPS_RTS'' c2
              else
                and_then
                  (if poller_type c2 = kBlocking
                   then (if ibv_req_notify_cq V \<noteq> 0
                         then Died ''ibv_req_notify_cq'' (emit [Call_ibv_req_notify_cq] c2)
                         else Returned (emit [Call_ibv_req_notify_cq, Start_poller_thread kBlocking] c2))
                   else Returned (emit [Start_poller_thread kSpinning] c2))
                  (\<lambda>c3. and_then (post_receives V kRecvBacklog c3)
                     (\<lambda>c4. Returned (emit [Store_is_connected True] (c4\<lparr>is_connected := True\<rparr>)))))"

definition TransitQueuePairToRTR :: "verbs \<Rightarrow> ConnInfo \<Rightarrow> Connection \<Rightarrow> conn_end" where
  "TransitQueuePairToRTR V msg c =
     (let attr = RTR_attr (dev_port c) msg;
          c1 = emit [Stderr ''remote ConnInfo'', Call_ibv_modify_qp attr RTR_mask] c
      in if ibv_modify_qp V attr RTR_mask \<noteq> 0 then Died ''TransitQueuePairToRTR'' c1
         else Returned c1)"

definition TransitQueuePairToRTS :: "verbs \<Rightarrow> Connection \<Rightarrow> conn_end" where
  "TransitQueuePairToRTS V c =
     (let c1 = emit [Call_ibv_modify_qp RTS_attr RTS_mask] c
      in if ibv_modify_qp V RTS_attr RTS_mask \<noteq> 0 then Died ''TransitQueuePairToRTS'' c1
         else Returned c1)"

text \<open>
  \<open>SendMemoryRegion\<close> and \<open>RecvMemoryRegion\<close> start a TCP operation and return; the
  callback of the read is \<open>RecvMemoryRegion_callback\<close>, called with the error number of the
  read (\<open>0\<close> for none) and the message read.
\<close>

definition SendMemoryRegion :: "Connection \<Rightarrow> conn_end" where
  "SendMemoryRegion c =
     Returned (emit [Stderr ''Sending MemoryRegion'',
                     Tcp_AsyncWrite_MemoryRegion (exposed_mr c)] c)"

definition RecvMemoryRegion :: "Connection \<Rightarrow> conn_end" where
  "RecvMemoryRegion c =
     Returned (emit [Stderr ''Waiting for peer MemoryRegion'', Tcp_AsyncRead kMemoryRegion] c)"

definition RecvMemoryRegion_callback ::
  "verbs \<Rightarrow> nat \<Rightarrow> int \<Rightarrow> RdmaConnectorMessage \<Rightarrow> Connection \<Rightarrow> conn_end" where
  "RecvMemoryRegion_callback V kRecvBacklog err msg c =
     (if err \<noteq> 0 then Returned (emit [Stderr ''RecvMemoryRegion: AsyncRead err''] c)
      else if msg_type msg \<noteq> kMemoryRegion
      then Returned (emit [Stderr ''RecvMemoryRegion: AsyncRead msg->type''] c)
      else
        and_then
          (MarkConnected V kRecvBacklog
             (emit [Stderr ''got memory region''] (c\<lparr>remote_mr := payload_mr msg\<rparr>)))
          (\<lambda>c1. Returned (emit [Handler_OnConnected] c1)))"

text \<open>The callback of the read that \<open>RecvConnInfo\<close> starts.\<close>

definition RecvConnInfo_callback ::
  "verbs \<Rightarrow> nat \<Rightarrow> int \<Rightarrow> RdmaConnectorMessage \<Rightarrow> Connection \<Rightarrow> conn_end" where
  "RecvConnInfo_callback V kRecvBacklog err msg c =
     (if err \<noteq> 0
      then Died ''RecvConnInfo AsyncRead callback'' (emit [Stderr ''RecvConnInfo: AsyncRead err''] c)
      else if msg_type msg \<noteq> kConnInfo
      then Died ''RecvConnInfo AsyncRead callback''
             (emit [Stderr ''RecvConnInfo: AsyncRead msg->type''] c)
      else
        and_then (TransitQueuePairToRTR V (payload_conn msg) (emit [Stderr ''Received peer ConnInfo''] c))
          (\<lambda>c1. and_then (TransitQueuePairToRTS V c1)
             (\<lambda>c2. if is_server c2
                   then and_then (MarkConnected V kRecvBacklog c2)
                          (\<lambda>c3. SendMemoryRegion (emit [Handler_OnConnected] c3))
                   else RecvMemoryRegion c2)))"

text \<open>
  Readings of the trace. A receive is outstanding from the call of \<open>ibv_post_recv\<close> until
  the poller has taken its completion.
\<close>

fun is_post_recv :: "conn_event \<Rightarrow> bool" where
  "is_post_recv (Call_ibv_post_recv wr) \<longleftrightarrow> True"
| "is_post_recv _ \<longleftrightarrow> False"

fun is_recv_completion :: "conn_event \<Rightarrow> bool" where
  "is_recv_completion (Polled wc) \<longleftrightarrow> wc_status wc = IBV_WC_SUCCESS \<and> wc_opcode wc AND IBV_WC_RECV \<noteq> 0"
| "is_recv_completion _ \<longleftrightarrow> False"

fun is_handler_call :: "conn_event \<Rightarrow> bool" where
  "is_handler_call Handler_OnConnected \<longleftrightarrow> True"
| "is_handler_call (Handler_OnRecv b) \<longleftrightarrow> True"
| "is_handler_call (Handler_OnSent b) \<longleftrightarrow> True"
| "is_handler_call (Handler_OnRdmaReadComplete b) \<longleftrightarrow> True"
| "is_handler_call (Handler_OnError e) \<longleftrightarrow> True"
| "is_handler_call _ \<longleftrightarrow> False"

definition outstanding_receives :: "conn_event list \<Rightarrow> int" where
  "outstanding_receives es =
     int (length (filter is_post_recv es)) - int (length (filter is_recv_completion es))"

text \<open>
  What happens to a connected connection, one entry per step: the poller thread handles a
  completion it polled, or the application calls \<open>AsyncSend\<close> or \<open>AsyncRead\<close>.
\<close>

datatype conn_input =
    Poller_handles ibv_wc
  | Call_AsyncSend OwnedMemoryBlock
  | Call_AsyncRead "64 word" "64 word"

definition connection_step :: "verbs \<Rightarrow> conn_input \<Rightarrow> Connection \<Rightarrow> conn_end" where
  "connection_step V i c =
     (case i of
        Poller_handles wc \<Rightarrow> HandleWorkCompletion V wc c
      | Call_AsyncSend b \<Rightarrow> AsyncSend V b c
      | Call_AsyncRead offset len \<Rightarrow> AsyncRead V offset len c)"

fun connection_run :: "verbs \<Rightarrow> conn_input list \<Rightarrow> Connection \<Rightarrow> conn_end" where
  "connection_run V [] c = Returned c"
| "connection_run V (i # ins) c = and_then (connection_step V i c) (connection_run V ins)"

text \<open>
  A connection as the constructor leaves it before the handshake (\<open>is_connected_\<close> false,
  blocking poller, nothing posted, no peer region known), and verbs that all succeed. They
  serve as concrete inputs.
\<close>

definition Connection_constructed :: "bool \<Rightarrow> 32 word \<Rightarrow> Connection" where
  "Connection_constructed server port =
     \<lparr>is_connected = False, is_server = server, poller_type = kBlocking, dev_port = port,
      next_wr_id = 0, wr_ctx = Map.empty,
      remote_mr = \<lparr>addr = 0, mr_size = 0, rkey = 0\<rparr>,
      exposed_mr = \<lparr>addr = 0, mr_size = 0, rkey = 0\<rparr>,
      local_lkey = 0, local_buf_data = 0, blocks_handed_out = 0,
      block_header = (\<lambda>b. 0), trace = []\<rparr>"

definition verbs_succeed :: verbs where
  "verbs_succeed =
     \<lparr>ibv_modify_qp = (\<lambda>a m. 0), ibv_query_qp = 0, queried_qp_state = IBV_QPS_RTS,
      ibv_req_notify_cq = 0, ibv_post_recv = (\<lambda>wr. 0), ibv_post_send = (\<lambda>wr. 0)\<rparr>"

text \<open>Completions and a handshake message that serve as concrete inputs.\<close>

definition recv_completion :: "64 word \<Rightarrow> ibv_wc" where
  "recv_completion i = \<lparr>wc_wr_id = i, wc_status = IBV_WC_SUCCESS, wc_opcode = IBV_WC_RECV\<rparr>"

definition send_completion :: "64 word \<Rightarrow> ibv_wc" where
  "send_completion i = \<lparr>wc_wr_id = i, wc_status = IBV_WC_SUCCESS, wc_opcode = IBV_WC_SEND\<rparr>"

definition example_message :: "MessageType \<Rightarrow> RdmaConnectorMessage" where
  "example_message t =
     \<lparr>msg_type = t,
      payload_conn = \<lparr>lid = 0, gid = \<lparr>subnet_prefix = 1, interface_id = 2\<rparr>, qp_num = 17\<rparr>,
      payload_mr = \<lparr>addr = 4096, mr_size = 1048576, rkey = 9\<rparr>\<rparr>"

text \<open>
  \<open>backlog_kept k t t'\<close>: the trace \<open>t'\<close> continues \<open>t\<close>, ends with \<open>k\<close>
  receives outstanding, had \<open>k\<close> outstanding at every call of the handler after
  \<open>t\<close>, and never but \<open>k\<close> or \<open>k - 1\<close> after \<open>t\<close>. \<open>no_on_error c c'\<close>: the trace of \<open>c'\<close> continues that of \<open>c\<close>
  with no call of \<open>on_error\<close>.
\<close>

definition backlog_kept :: "int \<Rightarrow> conn_event list \<Rightarrow> conn_event list \<Rightarrow> bool" where
  "backlog_kept k t t' \<longleftrightarrow>
     (\<exists>es. t' = t @ es) \<and> outstanding_receives t' = k \<and>
     (\<forall>n. length t \<le> n \<and> n < length t' \<and> is_handler_call (t' ! n) \<longrightarrow>
          outstanding_receives (take n t') = k) \<and>
     (\<forall>n. length t \<le> n \<and> n \<le> length t' \<longrightarrow>
          outstanding_receives (take n t') = k \<or> outstanding_receives (take n t') = k - 1)"

fun is_on_error :: "conn_event \<Rightarrow> bool" where
  "is_on_error (Handler_OnError e) \<longleftrightarrow> True"
| "is_on_error _ \<longleftrightarrow> False"

definition no_on_error :: "Connection \<Rightarrow> Connection \<Rightarrow> bool" where
  "no_on_error c c' \<longleftrightarrow> (\<exists>es. trace c' = trace c @ es \<and> filter is_on_error es = [])"

section \<open>The heap algorithms keep the heap\<close>

text \<open>
  The plans of \<open>plans_\<close> stay a heap under \<open>std::push_heap\<close> and
  \<open>std::pop_heap\<close>, which permute them; \<open>std::pop_heap\<close> moves the top, a plan of
  least \<open>exec_time_ns\<close>, to the back.
\<close>

lemma push_loop_length [simp]: "length (std_push_heap_loop cmp xs h t v) = length xs"
  by (induction cmp xs h t v rule: std_push_heap_loop.induct)
     (subst std_push_heap_loop.simps, simp)

lemma push_loop_above: "h < i \<Longrightarrow> std_push_heap_loop cmp xs h t v ! i = xs ! i"
proof (induction cmp xs h t v rule: std_push_heap_loop.induct)
  case (1 cmp xs h t v)
  show ?case
  proof (cases "h > t \<and> cmp (xs ! ((h - 1) div 2)) v")
    case True
    then have "(h - 1) div 2 < i" using "1.prems" by linarith
    with True "1.IH" "1.prems" show ?thesis
      by (subst std_push_heap_loop.simps) simp
  next
    case False
    with "1.prems" show ?thesis
      by (subst std_push_heap_loop.simps) auto
  qed
qed

lemma push_loop_mset:
  "h < length xs \<Longrightarrow> mset (std_push_heap_loop cmp xs h t v) = mset (xs[h := v])"
proof (induction cmp xs h t v rule: std_push_heap_loop.induct)
  case (1 cmp xs h t v)
  show ?case
  proof (cases "h > t \<and> cmp (xs ! ((h - 1) div 2)) v")
    case True
    let ?p = "(h - 1) div 2"
    from True have ph: "?p < h" by linarith
    then have pl: "?p < length xs" using "1.prems" by simp
    have "mset (std_push_heap_loop cmp xs h t v)
          = mset ((xs[h := xs ! ?p])[?p := v])"
      using True "1.IH" pl by (subst std_push_heap_loop.simps) simp
    also have "\<dots> = mset (xs[h := v])"
      using ph pl "1.prems" by (simp add: mset_update)
    finally show ?thesis .
  next
    case False
    then show ?thesis by (subst std_push_heap_loop.simps) auto
  qed
qed

lemma hole_inv_step:
  assumes inv: "hole_inv len xs h v" and h: "h < len" "len \<le> length xs" "0 < h"
    and c: "exec_time_ns (xs ! ((h - 1) div 2)) > exec_time_ns v"
  shows "hole_inv len (xs[h := xs ! ((h - 1) div 2)]) ((h - 1) div 2) v"
proof -
  let ?p = "(h - 1) div 2"
  let ?ys = "xs[h := xs ! ?p]"
  have ph: "?p < h" using h by linarith
  have a: "\<And>i. 0 < i \<Longrightarrow> i < len \<Longrightarrow> i \<noteq> h \<Longrightarrow>
        exec_time_ns (xs ! ((i - 1) div 2)) \<le> exec_time_ns (xs ! i)"
    using inv unfolding hole_inv_def by blast
  have cc: "\<And>i. 0 < i \<Longrightarrow> i < len \<Longrightarrow> (i - 1) div 2 = h \<Longrightarrow>
        exec_time_ns (xs ! ?p) \<le> exec_time_ns (xs ! i)"
    using inv h unfolding hole_inv_def by blast
  have ysh: "?ys ! h = xs ! ?p" using h by simp
  have ysn: "\<And>i. i \<noteq> h \<Longrightarrow> ?ys ! i = xs ! i" by simp
  have A: "exec_time_ns (?ys ! ((i - 1) div 2)) \<le> exec_time_ns (?ys ! i)"
    if "0 < i" "i < len" "i \<noteq> ?p" for i
  proof (cases "i = h")
    case True
    then show ?thesis using ysh ysn [of ?p] ph by simp
  next
    case False
    show ?thesis
    proof (cases "(i - 1) div 2 = h")
      case True
      then show ?thesis using cc [OF that(1,2)] ysh ysn [OF False] by simp
    next
      case nh: False
      then show ?thesis using a [OF that(1,2) False] ysn [OF False] ysn [OF nh] by simp
    qed
  qed
  have B: "exec_time_ns v \<le> exec_time_ns (?ys ! i)"
    if "0 < i" "i < len" "(i - 1) div 2 = ?p" for i
  proof (cases "i = h")
    case True
    then show ?thesis using ysh c by simp
  next
    case False
    then show ?thesis using a [OF that(1,2) False] that(3) ysn [OF False] c by simp
  qed
  have C: "exec_time_ns (?ys ! ((?p - 1) div 2)) \<le> exec_time_ns (?ys ! i)"
    if "0 < i" "i < len" "(i - 1) div 2 = ?p" "0 < ?p" for i
  proof -
    have pp: "(?p - 1) div 2 \<noteq> h" using ph by linarith
    have pl: "?p < len" using ph h by simp
    have "?p \<noteq> h" using ph by simp
    from a [OF that(4) pl this]
    have 1: "exec_time_ns (xs ! ((?p - 1) div 2)) \<le> exec_time_ns (xs ! ?p)" .
    show ?thesis
    proof (cases "i = h")
      case True
      then show ?thesis using ysh ysn [OF pp] 1 by simp
    next
      case False
      then show ?thesis using a [OF that(1,2) False] that(3) ysn [OF False] ysn [OF pp] 1 by simp
    qed
  qed
  show ?thesis unfolding hole_inv_def using A B C by blast
qed

lemma hole_inv_done:
  assumes inv: "hole_inv len xs h v" and h: "h < len" "len \<le> length xs"
    and c: "\<not> (0 < h \<and> exec_time_ns (xs ! ((h - 1) div 2)) > exec_time_ns v)"
  shows "heap_upto len (xs[h := v])"
  unfolding heap_upto_def
proof (intro allI impI)
  fix i assume i: "0 < i \<and> i < len"
  let ?ys = "xs[h := v]"
  have ysh: "?ys ! h = v" using h by simp
  have ysn: "\<And>j. j \<noteq> h \<Longrightarrow> ?ys ! j = xs ! j" by simp
  show "exec_time_ns (?ys ! ((i - 1) div 2)) \<le> exec_time_ns (?ys ! i)"
  proof (cases "i = h")
    case True
    then have "(h - 1) div 2 \<noteq> h" using i by linarith
    then show ?thesis using True i c ysh ysn by auto
  next
    case False
    show ?thesis
    proof (cases "(i - 1) div 2 = h")
      case True
      then show ?thesis using inv i ysh ysn [OF False] unfolding hole_inv_def by auto
    next
      case nh: False
      then show ?thesis using inv i False ysn [OF False] ysn [OF nh] unfolding hole_inv_def by auto
    qed
  qed
qed

lemma push_loop_heap:
  "hole_inv len xs h v \<Longrightarrow> h < len \<Longrightarrow> len \<le> length xs \<Longrightarrow>
   heap_upto len (std_push_heap_loop OrderBatchPlanProtoByExecTimeDesc xs h 0 v)"
proof (induction OrderBatchPlanProtoByExecTimeDesc xs h "0::nat" v rule: std_push_heap_loop.induct)
  case (1 xs h v)
  show ?case
  proof (cases "h > 0 \<and> OrderBatchPlanProtoByExecTimeDesc (xs ! ((h - 1) div 2)) v")
    case True
    then have c: "exec_time_ns (xs ! ((h - 1) div 2)) > exec_time_ns v"
      by (simp add: OrderBatchPlanProtoByExecTimeDesc_def)
    have ph: "(h - 1) div 2 < len" using True "1.prems" by linarith
    from hole_inv_step [OF "1.prems"(1,2,3) _ c] True
    have "hole_inv len (xs[h := xs ! ((h - 1) div 2)]) ((h - 1) div 2) v" by simp
    from "1.hyps" [OF True this ph] "1.prems" True show ?thesis
      by (subst std_push_heap_loop.simps) simp
  next
    case False
    then have "\<not> (0 < h \<and> exec_time_ns (xs ! ((h - 1) div 2)) > exec_time_ns v)"
      by (simp add: OrderBatchPlanProtoByExecTimeDesc_def)
    from hole_inv_done [OF "1.prems" this] False show ?thesis
      by (subst std_push_heap_loop.simps) auto
  qed
qed

lemma par_eq: "0 < (i::nat) \<Longrightarrow> ((i - 1) div 2 = h) = (i = 2 * h + 1 \<or> i = 2 * h + 2)"
  by presburger

lemma second_child_cases:
  "second_child OrderBatchPlanProtoByExecTimeDesc xs h = 2 * h + 1 \<and> exec_time_ns (xs ! (2 * h + 1)) < exec_time_ns (xs ! (2 * h + 2))
   \<or> second_child OrderBatchPlanProtoByExecTimeDesc xs h = 2 * h + 2 \<and> exec_time_ns (xs ! (2 * h + 2)) \<le> exec_time_ns (xs ! (2 * h + 1))"
  by (auto simp: second_child_def OrderBatchPlanProtoByExecTimeDesc_def)

lemma heap_upto_move_down:
  assumes hp: "heap_upto len xs" and ll: "len \<le> length xs"
    and s: "0 < s" "s < len" "(s - 1) div 2 = h"
    and le: "\<And>i. 0 < i \<Longrightarrow> i < len \<Longrightarrow> (i - 1) div 2 = h \<Longrightarrow>
               exec_time_ns (xs ! s) \<le> exec_time_ns (xs ! i)"
  shows "heap_upto len (xs[h := xs ! s])"
  unfolding heap_upto_def
proof (intro allI impI)
  fix i assume i: "0 < i \<and> i < len"
  let ?ys = "xs[h := xs ! s]"
  have a: "\<And>j. 0 < j \<Longrightarrow> j < len \<Longrightarrow>
        exec_time_ns (xs ! ((j - 1) div 2)) \<le> exec_time_ns (xs ! j)"
    using hp unfolding heap_upto_def by blast
  have hl: "h < length xs" using s ll by linarith
  have ysn: "\<And>j. j \<noteq> h \<Longrightarrow> ?ys ! j = xs ! j" by simp
  have ysh: "?ys ! h = xs ! s" using hl by simp
  have hs: "exec_time_ns (xs ! h) \<le> exec_time_ns (xs ! s)" using a [OF s(1,2)] s(3) by simp
  show "exec_time_ns (?ys ! ((i - 1) div 2)) \<le> exec_time_ns (?ys ! i)"
  proof (cases "i = h")
    case True
    then have nh: "(h - 1) div 2 \<noteq> h" using i by linarith
    show ?thesis using True a [of h] i hs ysn [OF nh] ysh by simp
  next
    case False
    show ?thesis
    proof (cases "(i - 1) div 2 = h")
      case True
      then show ?thesis using le [of i] i ysh ysn [OF False] by simp
    next
      case nh: False
      then show ?thesis using a i ysn [OF False] ysn [OF nh] by simp
    qed
  qed
qed

lemma heap_upto_second_child:
  assumes hp: "heap_upto len xs" and ll: "len \<le> length xs" and h: "h < (len - 1) div 2"
  shows "heap_upto len (xs[h := xs ! second_child OrderBatchPlanProtoByExecTimeDesc xs h])"
proof -
  have r: "2 * h + 2 < len" using h by linarith
  from second_child_cases [of xs h] show ?thesis
  proof
    assume c: "second_child OrderBatchPlanProtoByExecTimeDesc xs h = 2 * h + 1 \<and>
       exec_time_ns (xs ! (2 * h + 1)) < exec_time_ns (xs ! (2 * h + 2))"
    have "heap_upto len (xs[h := xs ! (2 * h + 1)])"
    proof (rule heap_upto_move_down [OF hp ll])
      fix i assume "0 < i" "i < len" "(i - 1) div 2 = h"
      then have "i = 2 * h + 1 \<or> i = 2 * h + 2" using par_eq by blast
      then show "exec_time_ns (xs ! (2 * h + 1)) \<le> exec_time_ns (xs ! i)" using c by auto
    qed (use r in auto)
    then show ?thesis using c by simp
  next
    assume c: "second_child OrderBatchPlanProtoByExecTimeDesc xs h = 2 * h + 2 \<and>
       exec_time_ns (xs ! (2 * h + 2)) \<le> exec_time_ns (xs ! (2 * h + 1))"
    have "heap_upto len (xs[h := xs ! (2 * h + 2)])"
    proof (rule heap_upto_move_down [OF hp ll])
      fix i assume "0 < i" "i < len" "(i - 1) div 2 = h"
      then have "i = 2 * h + 1 \<or> i = 2 * h + 2" using par_eq by blast
      then show "exec_time_ns (xs ! (2 * h + 2)) \<le> exec_time_ns (xs ! i)" using c by auto
    qed (use r in auto)
    then show ?thesis using c by simp
  qed
qed

lemma second_child_bounds:
  "h < (len - 1) div 2 \<Longrightarrow> h < second_child cmp xs h \<and> second_child cmp xs h < len"
  by (auto simp: second_child_def)

lemma adjust_loop_props:
  "heap_upto len xs \<Longrightarrow> len \<le> length xs \<Longrightarrow> h < len \<Longrightarrow>
   std_adjust_loop OrderBatchPlanProtoByExecTimeDesc xs h len = (ys, h') \<Longrightarrow>
   heap_upto len ys \<and> h' < len \<and> \<not> h' < (len - 1) div 2 \<and> length ys = length xs \<and>
   (\<forall>i\<ge>len. ys ! i = xs ! i) \<and> (\<forall>v. mset (ys[h' := v]) = mset (xs[h := v]))"
proof (induction OrderBatchPlanProtoByExecTimeDesc xs h len arbitrary: ys h' rule: std_adjust_loop.induct)
  case (1 xs h len)
  show ?case
  proof (cases "h < (len - 1) div 2")
    case True
    let ?s = "second_child OrderBatchPlanProtoByExecTimeDesc xs h"
    let ?zs = "xs[h := xs ! ?s]"
    have sb: "h < ?s" "?s < len" using second_child_bounds [OF True] by auto
    have hz: "heap_upto len ?zs" by (rule heap_upto_second_child [OF "1.prems"(1,2) True])
    have eq: "std_adjust_loop OrderBatchPlanProtoByExecTimeDesc ?zs ?s len = (ys, h')"
      using "1.prems"(4) True by (subst (asm) std_adjust_loop.simps) simp
    have lz: "len \<le> length ?zs" using "1.prems" by simp
    from "1.hyps" [OF True hz lz sb(2) eq]
    have ih: "heap_upto len ys" "h' < len" "\<not> h' < (len - 1) div 2" "length ys = length xs"
      "\<forall>i\<ge>len. ys ! i = ?zs ! i" "\<forall>v. mset (ys[h' := v]) = mset (?zs[?s := v])"
      by auto
    have "\<forall>i\<ge>len. ys ! i = xs ! i" using ih(5) "1.prems"(3) by simp
    moreover have "mset (?zs[?s := v]) = mset (xs[h := v])" for v
      using sb "1.prems" by (simp add: mset_update)
    ultimately show ?thesis using ih by simp
  next
    case False
    then have "ys = xs" "h' = h" using "1.prems"(4)
      by (subst (asm) std_adjust_loop.simps, simp)+
    then show ?thesis using "1.prems" False by simp
  qed
qed

lemma heap_upto_leaf_hole:
  "heap_upto len xs \<Longrightarrow> len \<le> 2 * h + 1 \<Longrightarrow> hole_inv len xs h v"
  unfolding heap_upto_def hole_inv_def
  by (auto simp: par_eq)

lemma adjust_heap_props:
  assumes hp: "heap_upto len xs" and ll: "len \<le> length xs" and l0: "0 < len"
  shows "heap_upto len (std_adjust_heap OrderBatchPlanProtoByExecTimeDesc xs 0 len v) \<and>
     length (std_adjust_heap OrderBatchPlanProtoByExecTimeDesc xs 0 len v) = length xs \<and>
     (\<forall>i\<ge>len. std_adjust_heap OrderBatchPlanProtoByExecTimeDesc xs 0 len v ! i = xs ! i) \<and>
     mset (std_adjust_heap OrderBatchPlanProtoByExecTimeDesc xs 0 len v) = mset (xs[0 := v])"
proof -
  obtain ys h where eq: "std_adjust_loop OrderBatchPlanProtoByExecTimeDesc xs 0 len = (ys, h)" by (cases "std_adjust_loop OrderBatchPlanProtoByExecTimeDesc xs 0 len")
  from adjust_loop_props [OF hp ll l0 eq]
  have p: "heap_upto len ys" "h < len" "\<not> h < (len - 1) div 2" "length ys = length xs"
      "\<forall>i\<ge>len. ys ! i = xs ! i" "\<forall>v. mset (ys[h := v]) = mset (xs[0 := v])"
    by auto
  have ly: "len \<le> length ys" using p ll by simp
  show ?thesis
  proof (cases "even len \<and> 2 * h + 2 = len")
    case True
    let ?s = "2 * (h + 1) - 1"
    let ?zs = "ys[h := ys ! ?s]"
    have s: "0 < ?s" "?s < len" "(?s - 1) div 2 = h" "h < ?s" using True by auto
    have "heap_upto len ?zs"
    proof (rule heap_upto_move_down [OF p(1) ly s(1,2,3)])
      fix i assume "0 < i" "i < len" "(i - 1) div 2 = h"
      then have "i = ?s" using True par_eq [of i h] by auto
      then show "exec_time_ns (ys ! ?s) \<le> exec_time_ns (ys ! i)" by simp
    qed
    then have hi: "hole_inv len ?zs ?s v" using True by (intro heap_upto_leaf_hole) auto
    have lz: "len \<le> length ?zs" using ly by simp
    have r: "std_adjust_heap OrderBatchPlanProtoByExecTimeDesc xs 0 len v = std_push_heap_loop OrderBatchPlanProtoByExecTimeDesc ?zs ?s 0 v"
      using True eq by (simp add: std_adjust_heap_def)
    have 1: "heap_upto len (std_adjust_heap OrderBatchPlanProtoByExecTimeDesc xs 0 len v)"
      using push_loop_heap [OF hi s(2) lz] r by simp
    have 2: "length (std_adjust_heap OrderBatchPlanProtoByExecTimeDesc xs 0 len v) = length xs" using r p by simp
    have 3: "\<forall>i\<ge>len. std_adjust_heap OrderBatchPlanProtoByExecTimeDesc xs 0 len v ! i = xs ! i"
      using r p(5) s push_loop_above [of ?s _ OrderBatchPlanProtoByExecTimeDesc ?zs 0 v] by auto
    have "mset (std_push_heap_loop OrderBatchPlanProtoByExecTimeDesc ?zs ?s 0 v) = mset (?zs[?s := v])"
      using s ly by (intro push_loop_mset) simp
    also have "\<dots> = mset (ys[h := v])" using s ly by (simp add: mset_update)
    finally have 4: "mset (std_adjust_heap OrderBatchPlanProtoByExecTimeDesc xs 0 len v) = mset (xs[0 := v])" using r p by simp
    show ?thesis using 1 2 3 4 by blast
  next
    case False
    then have leaf: "len \<le> 2 * h + 1" using p(3) by presburger
    have hi: "hole_inv len ys h v" using p(1) leaf by (rule heap_upto_leaf_hole)
    have r: "std_adjust_heap OrderBatchPlanProtoByExecTimeDesc xs 0 len v = std_push_heap_loop OrderBatchPlanProtoByExecTimeDesc ys h 0 v"
      using False eq by (auto simp add: std_adjust_heap_def)
    have 1: "heap_upto len (std_adjust_heap OrderBatchPlanProtoByExecTimeDesc xs 0 len v)"
      using push_loop_heap [OF hi p(2) ly] r by simp
    have 2: "length (std_adjust_heap OrderBatchPlanProtoByExecTimeDesc xs 0 len v) = length xs" using r p by simp
    have 3: "\<forall>i\<ge>len. std_adjust_heap OrderBatchPlanProtoByExecTimeDesc xs 0 len v ! i = xs ! i"
      using r p(5) p(2) push_loop_above [of h _ OrderBatchPlanProtoByExecTimeDesc ys 0 v] by auto
    have 4: "mset (std_adjust_heap OrderBatchPlanProtoByExecTimeDesc xs 0 len v) = mset (xs[0 := v])"
      using r p push_loop_mset [of h ys OrderBatchPlanProtoByExecTimeDesc 0 v] ly by simp
    show ?thesis using 1 2 3 4 by blast
  qed
qed

lemma heap_upto_top:
  "heap_upto len xs \<Longrightarrow> i < len \<Longrightarrow> exec_time_ns (xs ! 0) \<le> exec_time_ns (xs ! i)"
proof (induction i rule: less_induct)
  case (less i)
  show ?case
  proof (cases "i = 0")
    case True then show ?thesis by simp
  next
    case False
    then have p: "(i - 1) div 2 < i" by linarith
    then have "(i - 1) div 2 < len" using less.prems by simp
    from less.IH [OF p less.prems(1) this]
    have "exec_time_ns (xs ! 0) \<le> exec_time_ns (xs ! ((i - 1) div 2))" .
    moreover have "exec_time_ns (xs ! ((i - 1) div 2)) \<le> exec_time_ns (xs ! i)"
      using less.prems False unfolding heap_upto_def by simp
    ultimately show ?thesis by simp
  qed
qed

lemma is_heap_top: "is_heap xs \<Longrightarrow> x \<in> set xs \<Longrightarrow> exec_time_ns (xs ! 0) \<le> exec_time_ns x"
  unfolding is_heap_def by (metis heap_upto_top in_set_conv_nth)

lemma heap_upto_cong:
  "(\<And>i. i < len \<Longrightarrow> xs ! i = ys ! i) \<Longrightarrow> heap_upto len xs = heap_upto len ys"
proof -
  assume a: "\<And>i. i < len \<Longrightarrow> xs ! i = ys ! i"
  have "xs ! ((i - 1) div 2) = ys ! ((i - 1) div 2) \<and> xs ! i = ys ! i" if "0 < i" "i < len" for i
  proof -
    have "(i - 1) div 2 < len" using that by linarith
    then show ?thesis using a that by simp
  qed
  then show ?thesis unfolding heap_upto_def by auto
qed

lemma push_heap_props:
  assumes "is_heap xs"
  shows "is_heap (std_push_heap OrderBatchPlanProtoByExecTimeDesc (xs @ [p])) \<and>
         mset (std_push_heap OrderBatchPlanProtoByExecTimeDesc (xs @ [p])) = add_mset p (mset xs) \<and>
         length (std_push_heap OrderBatchPlanProtoByExecTimeDesc (xs @ [p])) = Suc (length xs)"
proof -
  let ?n = "length xs"
  let ?zs = "xs @ [p]"
  have r: "std_push_heap OrderBatchPlanProtoByExecTimeDesc ?zs = std_push_heap_loop OrderBatchPlanProtoByExecTimeDesc ?zs ?n 0 p"
    by (simp add: std_push_heap_def)
  have "heap_upto ?n ?zs = heap_upto ?n xs"
    by (rule heap_upto_cong) (simp add: nth_append)
  then have hz: "heap_upto ?n ?zs" using assms by (simp add: is_heap_def)
  have hi: "hole_inv (Suc ?n) ?zs ?n p"
    unfolding hole_inv_def
  proof (intro conjI allI impI)
    fix i assume "0 < i \<and> i < Suc ?n \<and> i \<noteq> ?n"
    then show "exec_time_ns (?zs ! ((i - 1) div 2)) \<le> exec_time_ns (?zs ! i)"
      using hz unfolding heap_upto_def by simp
  next
    fix i assume "0 < i \<and> i < Suc ?n \<and> (i - 1) div 2 = ?n"
    then have False by linarith
    then show "exec_time_ns p \<le> exec_time_ns (?zs ! i)" ..
  next
    fix i assume "0 < i \<and> i < Suc ?n \<and> (i - 1) div 2 = ?n \<and> 0 < ?n"
    then have False by linarith
    then show "exec_time_ns (?zs ! ((?n - 1) div 2)) \<le> exec_time_ns (?zs ! i)" ..
  qed
  have "heap_upto (Suc ?n) (std_push_heap_loop OrderBatchPlanProtoByExecTimeDesc ?zs ?n 0 p)"
    by (rule push_loop_heap [OF hi]) simp_all
  then have 1: "is_heap (std_push_heap OrderBatchPlanProtoByExecTimeDesc ?zs)" using r by (simp add: is_heap_def)
  have 2: "mset (std_push_heap OrderBatchPlanProtoByExecTimeDesc ?zs) = add_mset p (mset xs)"
    using r push_loop_mset [of ?n ?zs OrderBatchPlanProtoByExecTimeDesc 0 p] by simp
  show ?thesis using 1 2 r by simp
qed

lemma pop_heap_props:
  assumes hp: "is_heap xs" and ne: "xs \<noteq> []"
  shows "is_heap (butlast (std_pop_heap OrderBatchPlanProtoByExecTimeDesc xs)) \<and>
         last (std_pop_heap OrderBatchPlanProtoByExecTimeDesc xs) = xs ! 0 \<and>
         mset (butlast (std_pop_heap OrderBatchPlanProtoByExecTimeDesc xs)) = mset xs - {#xs ! 0#} \<and>
         length (std_pop_heap OrderBatchPlanProtoByExecTimeDesc xs) = length xs"
proof (cases "length xs > 1")
  case False
  then obtain x where "xs = [x]" using ne by (cases xs) auto
  then show ?thesis by (simp add: std_pop_heap_def is_heap_def heap_upto_def)
next
  case True
  let ?n = "length xs - 1"
  let ?zs = "xs[?n := xs ! 0]"
  let ?r = "std_adjust_heap OrderBatchPlanProtoByExecTimeDesc ?zs 0 ?n (xs ! ?n)"
  have r: "std_pop_heap OrderBatchPlanProtoByExecTimeDesc xs = ?r" using True by (simp add: std_pop_heap_def)
  have "heap_upto ?n ?zs = heap_upto ?n xs" by (rule heap_upto_cong) simp
  moreover have "heap_upto ?n xs" using hp unfolding is_heap_def heap_upto_def by auto
  ultimately have hz: "heap_upto ?n ?zs" by simp
  have lz: "?n \<le> length ?zs" by simp
  have n0: "0 < ?n" using True by simp
  from adjust_heap_props [OF hz lz n0, of "xs ! ?n"]
  have p: "heap_upto ?n ?r" "length ?r = length xs" "\<forall>i\<ge>?n. ?r ! i = ?zs ! i"
    "mset ?r = mset (?zs[0 := xs ! ?n])" by auto
  have rne: "?r \<noteq> []" using p(2) ne by auto
  have lb: "length (butlast ?r) = ?n" using p(2) by simp
  have "heap_upto ?n (butlast ?r) = heap_upto ?n ?r"
    by (rule heap_upto_cong) (use lb in \<open>simp add: nth_butlast\<close>)
  then have 1: "is_heap (butlast ?r)" using p(1) lb by (simp add: is_heap_def)
  have "last ?r = ?r ! ?n" using rne p(2) by (simp add: last_conv_nth)
  also have "\<dots> = ?zs ! ?n" using p(3) by simp
  also have "\<dots> = xs ! 0" using True by simp
  finally have 2: "last ?r = xs ! 0" .
  have "mset (?zs[0 := xs ! ?n]) = mset xs"
    using True ne mset_swap [of 0 xs ?n] by auto
  then have m: "mset ?r = mset xs" using p(4) by simp
  have "mset ?r = add_mset (last ?r) (mset (butlast ?r))"
    using rne by (metis append_butlast_last_id mset.simps(2) mset_append union_mset_add_mset_right add.right_neutral mset.simps(1))
  then have "mset xs = add_mset (xs ! 0) (mset (butlast ?r))" using m 2 by simp
  then have 3: "mset (butlast ?r) = mset xs - {#xs ! 0#}" by simp
  show ?thesis using 1 2 3 r p(2) by simp
qed


section \<open>The follower's invariant\<close>

lemma executing_now_append:
  "executing_now (es @ es') = executing_now es + executing_now es'"
  by (simp add: executing_now_def)

lemma follower_inv_init: "follower_inv (follower_init t0)"
  by (simp add: follower_inv_def follower_init_def is_heap_def heap_upto_def executing_now_def)

lemma inv_AddModel: "follower_inv f \<Longrightarrow> AddModel m f = Inr f' \<Longrightarrow> follower_inv f'"
  by (auto simp: AddModel_def Let_def follower_inv_def split: if_splits)

lemma inv_RemoveModel: "follower_inv f \<Longrightarrow> RemoveModel m f = Inr f' \<Longrightarrow> follower_inv f'"
  by (auto simp: RemoveModel_def Let_def follower_inv_def split: if_splits)

lemma UpdateTimer_fields [simp]:
  "plans (UpdateTimer f) = plans f" "models (UpdateTimer f) = models f"
  "is_executing (UpdateTimer f) = is_executing f" "running (UpdateTimer f) = running f"
  "events (UpdateTimer f) = events f"
  by (simp_all add: UpdateTimer_def)

lemma UpdateTimer_timer:
  "plans f = [] \<longrightarrow> \<not> timer_pending f \<Longrightarrow>
   timer_pending (UpdateTimer f) \<longrightarrow>
     plans f \<noteq> [] \<and> exec_time_ns (plans f ! 0) = timer_timeout (UpdateTimer f)"
  by (auto simp: UpdateTimer_def)

lemma inv_AddBatchPlan: "follower_inv f \<Longrightarrow> follower_inv (AddBatchPlan p f)"
proof -
  assume inv: "follower_inv f"
  let ?g = "f\<lparr>plans := std_push_heap OrderBatchPlanProtoByExecTimeDesc (plans f @ [p])\<rparr>"
  from inv have "is_heap (plans f)" by (simp add: follower_inv_def)
  from push_heap_props [OF this, of p]
  have h: "is_heap (plans ?g)" "plans ?g \<noteq> []" by auto
  from UpdateTimer_timer [of ?g] h(2)
  have "timer_pending (UpdateTimer ?g) \<longrightarrow>
     plans ?g \<noteq> [] \<and> exec_time_ns (plans ?g ! 0) = timer_timeout (UpdateTimer ?g)" by blast
  then show ?thesis using inv h(1) unfolding AddBatchPlan_def follower_inv_def by simp
qed

lemma inv_OnTimer_resume:
  "follower_inv f \<Longrightarrow> running f \<noteq> None \<Longrightarrow> follower_inv (OnTimer_resume t f)"
proof -
  assume inv: "follower_inv f" and r: "running f \<noteq> None"
  then obtain m p st where rf: "running f = Some (m, p, st)" by (cases "running f") auto
  let ?f1 = "f\<lparr>events := events f @ [ExecuteBatchPlan_returned m p t]\<rparr>"
  let ?f2 = "if ns_to_us (t - expected_finish_time_ns p) > 100
             then ?f1\<lparr>events := events ?f1 @ [LogWarning ''Huge finish_delay.'']\<rparr> else ?f1"
  have eq: "OnTimer_resume t f = (UpdateTimer ?f2)\<lparr>is_executing := False, running := None\<rparr>"
    using rf by (simp add: OnTimer_resume_def Let_def)
  have ex: "is_executing f" using inv r by (simp add: follower_inv_def)
  have ev: "executing_now (events ?f2) = 0" "list_all called_on_time (events ?f2)"
    using inv ex by (auto simp: follower_inv_def executing_now_def)
  have pl: "plans ?f2 = plans f" "timer_pending ?f2 = timer_pending f"
    "timer_timeout ?f2 = timer_timeout f" by auto
  have "plans ?f2 = [] \<longrightarrow> \<not> timer_pending ?f2" using inv pl by (auto simp: follower_inv_def)
  from UpdateTimer_timer [OF this]
  have tm: "timer_pending (UpdateTimer ?f2) \<longrightarrow>
     plans ?f2 \<noteq> [] \<and> exec_time_ns (plans ?f2 ! 0) = timer_timeout (UpdateTimer ?f2)" .
  have hp: "is_heap (plans ?f2)" using inv pl by (simp add: follower_inv_def)
  show ?thesis unfolding eq follower_inv_def using tm hp ev pl(1) by simp
qed

text \<open>What the timer callback does to a follower whose heap is not empty.\<close>

lemma OnTimer_enter_cases:
  assumes ne: "plans f \<noteq> []" and hp: "is_heap (plans f)"
  defines "p \<equiv> plans f ! 0"
  defines "rest \<equiv> butlast (std_pop_heap OrderBatchPlanProtoByExecTimeDesc (plans f))"
  shows "is_heap rest \<and> mset rest = mset (plans f) - {#p#} \<and>
    (if length (models f) \<le> model_index p \<or> models f ! model_index p = None
     then OnTimer_enter kOk now f =
            Inr (UpdateTimer (f\<lparr>plans := rest, events := events f @ [LogError ''Cannot find ModelIndex'']\<rparr>))
     else if is_executing f
     then OnTimer_enter kOk now f =
            Inl (CheckFailed ''BUG: the backend has not finished the previous batch.'')
     else OnTimer_enter kOk now f =
            Inr (f\<lparr>plans := rest, is_executing := True,
                   running := Some (the (models f ! model_index p), p, now),
                   events := events f @
                     (if ns_to_us (now - exec_time_ns p) > 100 then [LogWarning ''Huge start_delay.''] else []) @
                     [ExecuteBatchPlan_called (the (models f ! model_index p)) p now]\<rparr>))"
proof -
  from pop_heap_props [OF hp ne]
  have pp: "is_heap rest" "last (std_pop_heap OrderBatchPlanProtoByExecTimeDesc (plans f)) = p"
    "mset rest = mset (plans f) - {#p#}"
    by (auto simp: rest_def p_def)
  show ?thesis using pp ne
    by (auto simp: OnTimer_enter_def Let_def rest_def)
qed

lemma inv_step:
  assumes inv: "follower_inv f" and st: "follower_step i f = Inr f'"
  shows "follower_inv f'"
proof (cases i)
  case (Call_AddModel m)
  then show ?thesis using inv st inv_AddModel [of f m f']
    by (auto simp: follower_step_def lift_check_def split: sum.splits)
next
  case (Call_RemoveModel m)
  then show ?thesis using inv st inv_RemoveModel [of f m f']
    by (auto simp: follower_step_def lift_check_def split: sum.splits)
next
  case (Call_AddBatchPlan p)
  then show ?thesis using inv st inv_AddBatchPlan [of f p]
    by (auto simp: follower_step_def)
next
  case (ExecuteBatchPlan_returns t)
  then show ?thesis using inv st inv_OnTimer_resume [of f t]
    by (auto simp: follower_step_def split: if_splits)
next
  case (Timer_callback err now)
  show ?thesis
  proof (cases "err = kOk")
    case False
    then have "f' = f" using st Timer_callback
      by (auto simp: follower_step_def lift_check_def OnTimer_enter_def)
    then show ?thesis using inv by simp
  next
    case True
    let ?g = "f\<lparr>timer_pending := False\<rparr>"
    have en: "timer_pending f" "timer_timeout f \<le> now"
      and r: "lift_check (OnTimer_enter kOk now ?g) = Inr f'"
      using st Timer_callback True by (auto simp: follower_step_def split: if_splits)
    have ne: "plans ?g \<noteq> []" and top: "exec_time_ns (plans f ! 0) \<le> now"
      and hp: "is_heap (plans ?g)"
      using inv en by (auto simp: follower_inv_def)
    let ?p = "plans f ! 0"
    let ?rest = "butlast (std_pop_heap OrderBatchPlanProtoByExecTimeDesc (plans f))"
    from OnTimer_enter_cases [OF ne hp, of now]
    have c: "is_heap ?rest"
      "(if length (models f) \<le> model_index ?p \<or> models f ! model_index ?p = None
     then OnTimer_enter kOk now ?g =
            Inr (UpdateTimer (?g\<lparr>plans := ?rest, events := events f @ [LogError ''Cannot find ModelIndex'']\<rparr>))
     else if is_executing f
     then OnTimer_enter kOk now ?g =
            Inl (CheckFailed ''BUG: the backend has not finished the previous batch.'')
     else OnTimer_enter kOk now ?g =
            Inr (?g\<lparr>plans := ?rest, is_executing := True,
                   running := Some (the (models f ! model_index ?p), ?p, now),
                   events := events f @
                     (if ns_to_us (now - exec_time_ns ?p) > 100 then [LogWarning ''Huge start_delay.''] else []) @
                     [ExecuteBatchPlan_called (the (models f ! model_index ?p)) ?p now]\<rparr>))"
      by simp_all
    show ?thesis
    proof (cases "length (models f) \<le> model_index ?p \<or> models f ! model_index ?p = None")
      case miss: True
      let ?h = "?g\<lparr>plans := ?rest, events := events f @ [LogError ''Cannot find ModelIndex'']\<rparr>"
      have f': "f' = UpdateTimer ?h" using c(2) miss r by (simp add: lift_check_def)
      have "plans ?h = [] \<longrightarrow> \<not> timer_pending ?h" by simp
      from UpdateTimer_timer [OF this]
      have "timer_pending (UpdateTimer ?h) \<longrightarrow>
        plans ?h \<noteq> [] \<and> exec_time_ns (plans ?h ! 0) = timer_timeout (UpdateTimer ?h)" .
      then show ?thesis using inv c(1) unfolding f' follower_inv_def
        by (simp add: executing_now_def)
    next
      case found: False
      then have ne: "\<not> is_executing f" and
        f': "f' = ?g\<lparr>plans := ?rest, is_executing := True,
                   running := Some (the (models f ! model_index ?p), ?p, now),
                   events := events f @
                     (if ns_to_us (now - exec_time_ns ?p) > 100 then [LogWarning ''Huge start_delay.''] else []) @
                     [ExecuteBatchPlan_called (the (models f ! model_index ?p)) ?p now]\<rparr>"
        using c(2) r by (auto simp: lift_check_def split: if_splits)
      show ?thesis using inv c(1) ne top unfolding f' follower_inv_def
        by (simp add: executing_now_def)
    qed
  qed
qed

lemma inv_run:
  "follower_inv f \<Longrightarrow> follower_run ins f = Inr f' \<Longrightarrow> follower_inv f'"
proof (induction ins arbitrary: f)
  case Nil
  then show ?case by simp
next
  case (Cons i ins)
  then show ?case by (auto split: sum.splits intro: inv_step)
qed

lemma reachable_inv:
  "follower_run ins (follower_init t0) = Inr f \<Longrightarrow> follower_inv f"
  using inv_run [OF follower_inv_init] .

lemmas follower_eval =
  follower_step_def lift_check_def AddModel_def RemoveModel_def resize_models_def
  AddBatchPlan_def UpdateTimer_def OnTimer_enter_def OnTimer_resume_def
  std_push_heap_def std_push_heap_loop.simps std_pop_heap_def std_adjust_heap_def
  std_adjust_loop.simps second_child_def OrderBatchPlanProtoByExecTimeDesc_def
  follower_init_def ns_to_us_def Let_def


lemmas example_defs = executor_at_def plan_at_def

lemma executed_plans_append:
  "executed_plans (es @ es') = executed_plans es @ executed_plans es'"
  by (induction es rule: executed_plans.induct) simp_all

text \<open>
  C1, as amended. In every state the follower reaches from its construction, whatever the
  calls of \<open>AddModel\<close>, \<open>RemoveModel\<close> and \<open>AddBatchPlan\<close>, the timer callbacks
  and the returns of \<open>ExecuteBatchPlan\<close> that led there: every call of
  \<open>ExecuteBatchPlan\<close> so far was made with a \<open>start_time\<close> at or after its plan's
  \<open>exec_time_ns\<close>; at most one call is running, and \<open>is_executing\<close> is set exactly
  while one is. A timer callback that finds the model of the plan it pops installed comes
  no earlier than that plan's \<open>exec_time_ns\<close> and reaches the test-and-set: with the flag
  set the process ends on the \<open>CHECK\<close>; with the flag clear the flag is set and
  \<open>ExecuteBatchPlan\<close> is called for the popped plan. The return of the call clears the
  flag. The calls are made by \<open>OnTimer\<close> only, which the event loop runs on the
  follower's thread. The statement is about the plans that are executed: not every accepted
  plan is.
\<close>

theorem execute_not_early_and_never_overlapping:
  assumes run: "follower_run ins (follower_init t0) = Inr f"
  shows "list_all called_on_time (events f) \<and>
         (executing_now (events f) = 0 \<or> executing_now (events f) = 1) \<and>
         (is_executing f \<longleftrightarrow> executing_now (events f) = 1) \<and>
         (\<forall>now. timer_pending f \<and> timer_timeout f \<le> now \<and>
                model_index (plans f ! 0) < length (models f) \<and>
                models f ! model_index (plans f ! 0) \<noteq> None \<longrightarrow>
            exec_time_ns (plans f ! 0) \<le> now \<and>
            (if is_executing f
             then follower_step (Timer_callback kOk now) f =
                    Inl (Process_aborted (CheckFailed ''BUG: the backend has not finished the previous batch.''))
             else \<exists>f'. follower_step (Timer_callback kOk now) f = Inr f' \<and>
                    is_executing f' \<and>
                    last (events f') =
                      ExecuteBatchPlan_called (the (models f ! model_index (plans f ! 0))) (plans f ! 0) now \<and>
                    executed_plans (events f') = executed_plans (events f) @ [plans f ! 0])) \<and>
         (\<forall>now. is_executing f \<longrightarrow>
            (\<exists>f'. follower_step (ExecuteBatchPlan_returns now) f = Inr f' \<and>
                  \<not> is_executing f' \<and> executing_now (events f') = 0))"
proof -
  have inv: "follower_inv f" by (rule reachable_inv [OF run])
  have 1: "list_all called_on_time (events f)" using inv by (simp add: follower_inv_def)
  have 2: "executing_now (events f) = (if is_executing f then 1 else 0)"
    using inv by (simp add: follower_inv_def)
  have 3: "exec_time_ns (plans f ! 0) \<le> now \<and>
            (if is_executing f
             then follower_step (Timer_callback kOk now) f =
                    Inl (Process_aborted (CheckFailed ''BUG: the backend has not finished the previous batch.''))
             else \<exists>f'. follower_step (Timer_callback kOk now) f = Inr f' \<and>
                    is_executing f' \<and>
                    last (events f') =
                      ExecuteBatchPlan_called (the (models f ! model_index (plans f ! 0))) (plans f ! 0) now \<and>
                    executed_plans (events f') = executed_plans (events f) @ [plans f ! 0])"
    if h: "timer_pending f" "timer_timeout f \<le> now"
      "model_index (plans f ! 0) < length (models f)" "models f ! model_index (plans f ! 0) \<noteq> None"
    for now
  proof -
    let ?g = "f\<lparr>timer_pending := False\<rparr>"
    have ne: "plans ?g \<noteq> []" and hp: "is_heap (plans ?g)"
      and due: "exec_time_ns (plans f ! 0) \<le> now"
      using inv h by (auto simp: follower_inv_def)
    have st: "follower_step (Timer_callback kOk now) f = lift_check (OnTimer_enter kOk now ?g)"
      using h by (simp add: follower_step_def)
    show ?thesis
    proof (cases "is_executing f")
      case True
      from OnTimer_enter_cases [OF ne hp, of now] h True
      have "OnTimer_enter kOk now ?g =
              Inl (CheckFailed ''BUG: the backend has not finished the previous batch.'')"
        by (simp split: if_splits)
      then show ?thesis using True due st by (simp add: lift_check_def)
    next
      case False
      from OnTimer_enter_cases [OF ne hp, of now] h False
      have "OnTimer_enter kOk now ?g =
            Inr (?g\<lparr>plans := butlast (std_pop_heap OrderBatchPlanProtoByExecTimeDesc (plans ?g)),
                   is_executing := True,
                   running := Some (the (models ?g ! model_index (plans ?g ! 0)), plans ?g ! 0, now),
                   events := events ?g @
                     (if ns_to_us (now - exec_time_ns (plans ?g ! 0)) > 100 then [LogWarning ''Huge start_delay.''] else []) @
                     [ExecuteBatchPlan_called (the (models ?g ! model_index (plans ?g ! 0))) (plans ?g ! 0) now]\<rparr>)"
        by (simp split: if_splits)
      then show ?thesis using False due st
        by (simp add: lift_check_def executed_plans_append)
    qed
  qed
  have 4: "\<exists>f'. follower_step (ExecuteBatchPlan_returns now) f = Inr f' \<and>
                  \<not> is_executing f' \<and> executing_now (events f') = 0"
    if e: "is_executing f" for now
  proof -
    have r: "running f \<noteq> None" using inv e by (simp add: follower_inv_def)
    then have st: "follower_step (ExecuteBatchPlan_returns now) f = Inr (OnTimer_resume now f)"
      by (simp add: follower_step_def)
    have "follower_inv (OnTimer_resume now f)" by (rule inv_step [OF inv st])
    moreover have "\<not> is_executing (OnTimer_resume now f)"
      using r by (auto simp: OnTimer_resume_def Let_def split: prod.splits)
    ultimately show ?thesis using st by (auto simp: follower_inv_def)
  qed
  show ?thesis using 1 2 3 4 by (auto split: if_splits)
qed

text \<open>
  Runs for C1. A plan due at 100 is being executed when a plan due at 200 arrives and arms
  the timer: the callback at 200 finds the flag set and the process ends, and the return of
  the call at 150 clears the flag. Before that, with the plan due at 100 pending and the
  flag clear, the callback at 100 sets the flag and calls \<open>ExecuteBatchPlan\<close> for it.
\<close>

theorem execute_not_early_and_never_overlapping_witness:
  "follower_run [Call_AddModel (executor_at 0 ''m''), Call_AddBatchPlan (plan_at 1 0 100),
                 Timer_callback kOk 100, Call_AddBatchPlan (plan_at 2 0 200)] (follower_init 0)
     = Inr \<lparr>models = [Some (executor_at 0 ''m'')], plans = [plan_at 2 0 200], timer_timeout = 200,
            timer_pending = True, is_executing = True,
            running = Some (executor_at 0 ''m'', plan_at 1 0 100, 100),
            events = [ExecuteBatchPlan_called (executor_at 0 ''m'') (plan_at 1 0 100) 100]\<rparr> \<and>
   list_all called_on_time [ExecuteBatchPlan_called (executor_at 0 ''m'') (plan_at 1 0 100) 100] \<and>
   executing_now [ExecuteBatchPlan_called (executor_at 0 ''m'') (plan_at 1 0 100) 100] = 1 \<and>
   follower_step (Timer_callback kOk 200)
     \<lparr>models = [Some (executor_at 0 ''m'')], plans = [plan_at 2 0 200], timer_timeout = 200,
      timer_pending = True, is_executing = True,
      running = Some (executor_at 0 ''m'', plan_at 1 0 100, 100),
      events = [ExecuteBatchPlan_called (executor_at 0 ''m'') (plan_at 1 0 100) 100]\<rparr>
     = Inl (Process_aborted (CheckFailed ''BUG: the backend has not finished the previous batch.'')) \<and>
   (\<exists>f'. follower_step (ExecuteBatchPlan_returns 150)
            \<lparr>models = [Some (executor_at 0 ''m'')], plans = [plan_at 2 0 200], timer_timeout = 200,
             timer_pending = True, is_executing = True,
             running = Some (executor_at 0 ''m'', plan_at 1 0 100, 100),
             events = [ExecuteBatchPlan_called (executor_at 0 ''m'') (plan_at 1 0 100) 100]\<rparr> = Inr f' \<and>
          \<not> is_executing f' \<and> executing_now (events f') = 0) \<and>
   follower_run [Call_AddModel (executor_at 0 ''m''), Call_AddBatchPlan (plan_at 1 0 100)]
       (follower_init 0)
     = Inr \<lparr>models = [Some (executor_at 0 ''m'')], plans = [plan_at 1 0 100], timer_timeout = 100,
            timer_pending = True, is_executing = False, running = None, events = []\<rparr> \<and>
   (\<exists>f'. follower_step (Timer_callback kOk 100)
            \<lparr>models = [Some (executor_at 0 ''m'')], plans = [plan_at 1 0 100], timer_timeout = 100,
             timer_pending = True, is_executing = False, running = None, events = []\<rparr> = Inr f' \<and>
          is_executing f' \<and>
          last (events f') = ExecuteBatchPlan_called (executor_at 0 ''m'') (plan_at 1 0 100) 100 \<and>
          executed_plans (events f') = [plan_at 1 0 100])"
proof -
  let ?f = "\<lparr>models = [Some (executor_at 0 ''m'')], plans = [plan_at 2 0 200], timer_timeout = 200,
            timer_pending = True, is_executing = True,
            running = Some (executor_at 0 ''m'', plan_at 1 0 100, 100),
            events = [ExecuteBatchPlan_called (executor_at 0 ''m'') (plan_at 1 0 100) 100]\<rparr>"
  let ?g = "\<lparr>models = [Some (executor_at 0 ''m'')], plans = [plan_at 1 0 100], timer_timeout = 100,
            timer_pending = True, is_executing = False, running = None, events = []\<rparr>"
  have run: "follower_run [Call_AddModel (executor_at 0 ''m''), Call_AddBatchPlan (plan_at 1 0 100),
                 Timer_callback kOk 100, Call_AddBatchPlan (plan_at 2 0 200)] (follower_init 0) = Inr ?f"
    by (simp add: follower_eval example_defs)
  have run2: "follower_run [Call_AddModel (executor_at 0 ''m''), Call_AddBatchPlan (plan_at 1 0 100)]
       (follower_init 0) = Inr ?g"
    by (simp add: follower_eval example_defs)
  have pre: "is_executing ?f \<and> timer_pending ?f \<and> timer_timeout ?f \<le> 200 \<and>
                model_index (plans ?f ! 0) < length (models ?f) \<and>
                models ?f ! model_index (plans ?f ! 0) \<noteq> None"
    by (simp add: example_defs)
  have pre2: "\<not> is_executing ?g \<and> timer_pending ?g \<and> timer_timeout ?g \<le> 100 \<and>
                model_index (plans ?g ! 0) < length (models ?g) \<and>
                models ?g ! model_index (plans ?g ! 0) \<noteq> None"
    by (simp add: example_defs)
  have top: "plans ?g ! 0 = plan_at 1 0 100 \<and>
             the (models ?g ! model_index (plans ?g ! 0)) = executor_at 0 ''m'' \<and>
             executed_plans (events ?g) = []"
    by (simp add: example_defs)
  note t = execute_not_early_and_never_overlapping [OF run]
  note t2 = execute_not_early_and_never_overlapping [OF run2]
  have a: "list_all called_on_time (events ?f) \<and> executing_now (events ?f) = 1"
    using t pre by simp
  have b: "follower_step (Timer_callback kOk 200) ?f
     = Inl (Process_aborted (CheckFailed ''BUG: the backend has not finished the previous batch.''))"
    using t pre by (elim conjE allE [of _ 200]) simp
  have c: "\<exists>f'. follower_step (ExecuteBatchPlan_returns 150) ?f = Inr f' \<and>
          \<not> is_executing f' \<and> executing_now (events f') = 0"
    using t pre by blast
  have d: "\<exists>f'. follower_step (Timer_callback kOk 100) ?g = Inr f' \<and>
          is_executing f' \<and>
          last (events f') = ExecuteBatchPlan_called (executor_at 0 ''m'') (plan_at 1 0 100) 100 \<and>
          executed_plans (events f') = [plan_at 1 0 100]"
    using t2 pre2 top by (elim conjE allE [of _ 100]) simp
  show ?thesis using run run2 a b c d by simp
qed

text \<open>
  C1 as the claim states it fails: not every accepted plan is executed. A plan accepted
  while its model is not installed is popped by the timer callback at its deadline and
  dropped without a call of \<open>ExecuteBatchPlan\<close>. And of two accepted plans due at the
  same time, with their model installed, the second is still pending after the first has
  run and returned, and no timer wait is outstanding, so that no timer callback comes for
  it.
\<close>

theorem accepted_plans_not_executed_counterexample:
  "follower_run [Call_AddBatchPlan (plan_at 1 0 100), Timer_callback kOk 100] (follower_init 0)
     = Inr \<lparr>models = [], plans = [], timer_timeout = 100, timer_pending = False,
            is_executing = False, running = None,
            events = [LogError ''Cannot find ModelIndex'']\<rparr> \<and>
   follower_run [Call_AddModel (executor_at 0 ''m''), Call_AddBatchPlan (plan_at 1 0 100),
                 Call_AddBatchPlan (plan_at 2 0 100), Timer_callback kOk 100,
                 ExecuteBatchPlan_returns 150] (follower_init 0)
     = Inr \<lparr>models = [Some (executor_at 0 ''m'')], plans = [plan_at 2 0 100], timer_timeout = 100,
            timer_pending = False, is_executing = False, running = None,
            events = [ExecuteBatchPlan_called (executor_at 0 ''m'') (plan_at 1 0 100) 100,
                      ExecuteBatchPlan_returned (executor_at 0 ''m'') (plan_at 1 0 100) 150]\<rparr> \<and>
   (\<forall>now. follower_step (Timer_callback kOk now)
            \<lparr>models = [Some (executor_at 0 ''m'')], plans = [plan_at 2 0 100], timer_timeout = 100,
             timer_pending = False, is_executing = False, running = None,
             events = [ExecuteBatchPlan_called (executor_at 0 ''m'') (plan_at 1 0 100) 100,
                       ExecuteBatchPlan_returned (executor_at 0 ''m'') (plan_at 1 0 100) 150]\<rparr>
          = Inl Not_enabled)"
proof -
  have 1: "follower_run [Call_AddBatchPlan (plan_at 1 0 100), Timer_callback kOk 100] (follower_init 0)
     = Inr \<lparr>models = [], plans = [], timer_timeout = 100, timer_pending = False,
            is_executing = False, running = None,
            events = [LogError ''Cannot find ModelIndex'']\<rparr>"
    by (simp add: follower_eval example_defs)
  have 2: "follower_run [Call_AddModel (executor_at 0 ''m''), Call_AddBatchPlan (plan_at 1 0 100),
                 Call_AddBatchPlan (plan_at 2 0 100), Timer_callback kOk 100,
                 ExecuteBatchPlan_returns 150] (follower_init 0)
     = Inr \<lparr>models = [Some (executor_at 0 ''m'')], plans = [plan_at 2 0 100], timer_timeout = 100,
            timer_pending = False, is_executing = False, running = None,
            events = [ExecuteBatchPlan_called (executor_at 0 ''m'') (plan_at 1 0 100) 100,
                      ExecuteBatchPlan_returned (executor_at 0 ''m'') (plan_at 1 0 100) 150]\<rparr>"
    by (simp add: follower_eval example_defs)
  have 3: "follower_step (Timer_callback kOk now)
            \<lparr>models = [Some (executor_at 0 ''m'')], plans = [plan_at 2 0 100], timer_timeout = 100,
             timer_pending = False, is_executing = False, running = None,
             events = [ExecuteBatchPlan_called (executor_at 0 ''m'') (plan_at 1 0 100) 100,
                       ExecuteBatchPlan_returned (executor_at 0 ''m'') (plan_at 1 0 100) 150]\<rparr>
          = Inl Not_enabled" for now
    by (simp add: follower_step_def)
  show ?thesis using 1 2 3 by simp
qed

text \<open>
  C2, as amended. In every state the follower reaches, a timer callback pops a plan of least
  \<open>exec_time_ns\<close> among the pending ones, whatever the order in which \<open>AddBatchPlan\<close>
  inserted them, and that plan is the only one the callback can pass to
  \<open>ExecuteBatchPlan\<close>: of two plans that are pending together, the one with the smaller
  \<open>exec_time_ns\<close> is popped first.
\<close>

theorem popped_plan_is_earliest_pending:
  assumes run: "follower_run ins (follower_init t0) = Inr f"
    and step: "follower_step (Timer_callback kOk now) f = Inr f'"
  shows "plans f \<noteq> [] \<and> plans f ! 0 \<in> set (plans f) \<and>
         (\<forall>q \<in> set (plans f). exec_time_ns (plans f ! 0) \<le> exec_time_ns q) \<and>
         mset (plans f') = mset (plans f) - {#plans f ! 0#} \<and>
         (executed_plans (events f') = executed_plans (events f) @ [plans f ! 0] \<or>
          executed_plans (events f') = executed_plans (events f))"
proof -
  have inv: "follower_inv f" by (rule reachable_inv [OF run])
  let ?g = "f\<lparr>timer_pending := False\<rparr>"
  have en: "timer_pending f" "timer_timeout f \<le> now"
    and r: "lift_check (OnTimer_enter kOk now ?g) = Inr f'"
    using step by (auto simp: follower_step_def split: if_splits)
  have ne: "plans ?g \<noteq> []" and hp: "is_heap (plans ?g)"
    using inv en by (auto simp: follower_inv_def)
  have top: "\<forall>q \<in> set (plans f). exec_time_ns (plans f ! 0) \<le> exec_time_ns q"
    using is_heap_top hp by auto
  have mem: "plans f ! 0 \<in> set (plans f)" using ne by simp
  from OnTimer_enter_cases [OF ne hp, of now] r
  have "mset (plans f') = mset (plans f) - {#plans f ! 0#} \<and>
         (executed_plans (events f') = executed_plans (events f) @ [plans f ! 0] \<or>
          executed_plans (events f') = executed_plans (events f))"
    by (auto simp: lift_check_def executed_plans_append split: if_splits)
  then show ?thesis using ne top mem by simp
qed

text \<open>
  A run for C2: plans due at 300, 100 and 200 are inserted in this order, and the callback
  pops and executes the plan due at 100.
\<close>

theorem popped_plan_is_earliest_pending_witness:
  "follower_run [Call_AddModel (executor_at 0 ''m''), Call_AddBatchPlan (plan_at 3 0 300),
                 Call_AddBatchPlan (plan_at 1 0 100), Call_AddBatchPlan (plan_at 2 0 200)]
     (follower_init 0)
     = Inr \<lparr>models = [Some (executor_at 0 ''m'')],
            plans = [plan_at 1 0 100, plan_at 3 0 300, plan_at 2 0 200],
            timer_timeout = 100, timer_pending = True, is_executing = False, running = None,
            events = []\<rparr> \<and>
   follower_step (Timer_callback kOk 100)
     \<lparr>models = [Some (executor_at 0 ''m'')],
      plans = [plan_at 1 0 100, plan_at 3 0 300, plan_at 2 0 200],
      timer_timeout = 100, timer_pending = True, is_executing = False, running = None,
      events = []\<rparr>
     = Inr \<lparr>models = [Some (executor_at 0 ''m'')],
            plans = [plan_at 2 0 200, plan_at 3 0 300],
            timer_timeout = 100, timer_pending = False, is_executing = True,
            running = Some (executor_at 0 ''m'', plan_at 1 0 100, 100),
            events = [ExecuteBatchPlan_called (executor_at 0 ''m'') (plan_at 1 0 100) 100]\<rparr> \<and>
   exec_time_ns (plan_at 1 0 100) \<le> exec_time_ns (plan_at 3 0 300) \<and>
   mset [plan_at 2 0 200, plan_at 3 0 300]
     = mset [plan_at 1 0 100, plan_at 3 0 300, plan_at 2 0 200] - {#plan_at 1 0 100#}"
proof -
  let ?f = "\<lparr>models = [Some (executor_at 0 ''m'')],
      plans = [plan_at 1 0 100, plan_at 3 0 300, plan_at 2 0 200],
      timer_timeout = 100, timer_pending = True, is_executing = False, running = None,
      events = []\<rparr>"
  let ?f' = "\<lparr>models = [Some (executor_at 0 ''m'')],
            plans = [plan_at 2 0 200, plan_at 3 0 300],
            timer_timeout = 100, timer_pending = False, is_executing = True,
            running = Some (executor_at 0 ''m'', plan_at 1 0 100, 100),
            events = [ExecuteBatchPlan_called (executor_at 0 ''m'') (plan_at 1 0 100) 100]\<rparr>"
  have run: "follower_run [Call_AddModel (executor_at 0 ''m''), Call_AddBatchPlan (plan_at 3 0 300),
                 Call_AddBatchPlan (plan_at 1 0 100), Call_AddBatchPlan (plan_at 2 0 200)]
     (follower_init 0) = Inr ?f"
    by (simp add: follower_eval example_defs)
  have step: "follower_step (Timer_callback kOk 100) ?f = Inr ?f'"
    by (simp add: follower_eval example_defs)
  from popped_plan_is_earliest_pending [OF run step]
  have "(\<forall>q \<in> set (plans ?f). exec_time_ns (plans ?f ! 0) \<le> exec_time_ns q) \<and>
        mset (plans ?f') = mset (plans ?f) - {#plans ?f ! 0#}" by blast
  then show ?thesis using run step by simp
qed

text \<open>
  C2 as the claim states it fails for a plan that is accepted late: the plan due at 200 is
  executed at 200, the plan due at 100 is accepted after that and executed at 260.
\<close>

theorem late_plan_runs_after_later_deadline_counterexample:
  "exec_time_ns (plan_at 1 0 100) < exec_time_ns (plan_at 2 0 200) \<and>
   executed_plans
     [ExecuteBatchPlan_called (executor_at 0 ''m'') (plan_at 2 0 200) 200,
      ExecuteBatchPlan_returned (executor_at 0 ''m'') (plan_at 2 0 200) 240,
      ExecuteBatchPlan_called (executor_at 0 ''m'') (plan_at 1 0 100) 260,
      ExecuteBatchPlan_returned (executor_at 0 ''m'') (plan_at 1 0 100) 270]
     = [plan_at 2 0 200, plan_at 1 0 100] \<and>
   follower_run [Call_AddModel (executor_at 0 ''m''),
                 Call_AddBatchPlan (plan_at 2 0 200), Timer_callback kOk 200,
                 ExecuteBatchPlan_returns 240,
                 Call_AddBatchPlan (plan_at 1 0 100), Timer_callback kOk 260,
                 ExecuteBatchPlan_returns 270] (follower_init 0)
     = Inr \<lparr>models = [Some (executor_at 0 ''m'')], plans = [], timer_timeout = 100,
            timer_pending = False, is_executing = False, running = None,
            events = [ExecuteBatchPlan_called (executor_at 0 ''m'') (plan_at 2 0 200) 200,
                      ExecuteBatchPlan_returned (executor_at 0 ''m'') (plan_at 2 0 200) 240,
                      ExecuteBatchPlan_called (executor_at 0 ''m'') (plan_at 1 0 100) 260,
                      ExecuteBatchPlan_returned (executor_at 0 ''m'') (plan_at 1 0 100) 270]\<rparr>"
  by (simp add: follower_eval example_defs)

text \<open>
  C10, as amended. When the timer fires in a state the follower has reached and the plan at
  the top of the heap names a model that is not installed, the callback removes that plan from
  the heap and keeps the other pending plans, calls \<open>ExecuteBatchPlan\<close> for no plan, logs
  the miss, and leaves the models table, the flag and a running call as they are. It then
  calls \<open>UpdateTimer\<close>, which arms the timer for the remaining top only when the heap is
  not empty and the top's \<open>exec_time_ns\<close> differs from the timer's deadline; otherwise no
  wait is outstanding afterwards.
\<close>

theorem missing_model_discards_plan:
  assumes run: "follower_run ins (follower_init t0) = Inr f"
    and fire: "timer_pending f" "timer_timeout f \<le> now"
    and miss: "length (models f) \<le> model_index (plans f ! 0) \<or>
               models f ! model_index (plans f ! 0) = None"
  shows "\<exists>f'. follower_step (Timer_callback kOk now) f = Inr f' \<and>
           plans f ! 0 \<in> set (plans f) \<and>
           mset (plans f') = mset (plans f) - {#plans f ! 0#} \<and>
           models f' = models f \<and>
           events f' = events f @ [LogError ''Cannot find ModelIndex''] \<and>
           executed_plans (events f') = executed_plans (events f) \<and>
           is_executing f' = is_executing f \<and> running f' = running f \<and>
           (if plans f' \<noteq> [] \<and> exec_time_ns (plans f' ! 0) \<noteq> timer_timeout f
            then timer_pending f' \<and> timer_timeout f' = exec_time_ns (plans f' ! 0)
            else \<not> timer_pending f' \<and> timer_timeout f' = timer_timeout f)"
proof -
  have inv: "follower_inv f" by (rule reachable_inv [OF run])
  let ?g = "f\<lparr>timer_pending := False\<rparr>"
  have ne: "plans ?g \<noteq> []" and hp: "is_heap (plans ?g)"
    using inv fire by (auto simp: follower_inv_def)
  let ?rest = "butlast (std_pop_heap OrderBatchPlanProtoByExecTimeDesc (plans f))"
  let ?h = "?g\<lparr>plans := ?rest, events := events f @ [LogError ''Cannot find ModelIndex'']\<rparr>"
  from OnTimer_enter_cases [OF ne hp, of now] miss
  have m: "mset ?rest = mset (plans f) - {#plans f ! 0#}"
    and e: "OnTimer_enter kOk now ?g = Inr (UpdateTimer ?h)"
    by (auto split: if_splits)
  have st: "follower_step (Timer_callback kOk now) f = Inr (UpdateTimer ?h)"
    using e fire by (simp add: follower_step_def lift_check_def)
  have tm: "(if plans ?h \<noteq> [] \<and> exec_time_ns (plans ?h ! 0) \<noteq> timer_timeout f
            then timer_pending (UpdateTimer ?h) \<and> timer_timeout (UpdateTimer ?h) = exec_time_ns (plans ?h ! 0)
            else \<not> timer_pending (UpdateTimer ?h) \<and> timer_timeout (UpdateTimer ?h) = timer_timeout f)"
    by (simp add: UpdateTimer_def)
  show ?thesis using st m ne tm
    by (intro exI [of _ "UpdateTimer ?h"]) (simp add: executed_plans_append)
qed

text \<open>
  A run for C10: two plans due at 100 and 200, no model; the callback at 100 drops the first
  and arms the timer for 200.
\<close>

theorem missing_model_discards_plan_witness:
  "follower_run [Call_AddBatchPlan (plan_at 1 0 100), Call_AddBatchPlan (plan_at 2 0 200)]
     (follower_init 0)
     = Inr \<lparr>models = [], plans = [plan_at 1 0 100, plan_at 2 0 200], timer_timeout = 100,
            timer_pending = True, is_executing = False, running = None, events = []\<rparr> \<and>
   follower_step (Timer_callback kOk 100)
     \<lparr>models = [], plans = [plan_at 1 0 100, plan_at 2 0 200], timer_timeout = 100,
      timer_pending = True, is_executing = False, running = None, events = []\<rparr>
     = Inr \<lparr>models = [], plans = [plan_at 2 0 200], timer_timeout = 200,
            timer_pending = True, is_executing = False, running = None,
            events = [LogError ''Cannot find ModelIndex'']\<rparr>"
proof -
  let ?f = "\<lparr>models = [], plans = [plan_at 1 0 100, plan_at 2 0 200], timer_timeout = 100,
      timer_pending = True, is_executing = False, running = None, events = []\<rparr>"
  have run: "follower_run [Call_AddBatchPlan (plan_at 1 0 100), Call_AddBatchPlan (plan_at 2 0 200)]
     (follower_init 0) = Inr ?f"
    by (simp add: follower_eval example_defs)
  have fire: "timer_pending ?f" "timer_timeout ?f \<le> 100" by simp_all
  have miss: "length (models ?f) \<le> model_index (plans ?f ! 0) \<or>
               models ?f ! model_index (plans ?f ! 0) = None" by simp
  from missing_model_discards_plan [OF run fire miss]
  obtain f' where f': "follower_step (Timer_callback kOk 100) ?f = Inr f'"
    "events f' = events ?f @ [LogError ''Cannot find ModelIndex'']" by blast
  have "follower_step (Timer_callback kOk 100) ?f
     = Inr \<lparr>models = [], plans = [plan_at 2 0 200], timer_timeout = 200,
            timer_pending = True, is_executing = False, running = None,
            events = [LogError ''Cannot find ModelIndex'']\<rparr>"
    by (simp add: follower_eval example_defs)
  then show ?thesis using run f' by simp
qed

text \<open>
  C10 as the claim states it fails when the remaining top is due at the deadline the timer
  just fired for: two plans due at 100, no model; after the callback the second plan is pending
  and no wait is outstanding.
\<close>

theorem missing_model_timer_not_rearmed_counterexample:
  "follower_run [Call_AddBatchPlan (plan_at 1 0 100), Call_AddBatchPlan (plan_at 2 0 100),
                 Timer_callback kOk 100] (follower_init 0)
     = Inr \<lparr>models = [], plans = [plan_at 2 0 100], timer_timeout = 100,
            timer_pending = False, is_executing = False, running = None,
            events = [LogError ''Cannot find ModelIndex'']\<rparr>"
  by (simp add: follower_eval example_defs)


section \<open>The claims about the follower's model table\<close>

text \<open>
  C8, as amended. \<open>RemoveModel(m)\<close> checks that \<open>m\<close>'s \<open>model_index\<close> is within the
  table and that the slot there is not empty; it does not compare the slot with \<open>m\<close>. When
  both checks pass it clears that slot: the table keeps its length, every other slot and every
  other member of the follower are unchanged. When one fails the process ends.
\<close>

theorem RemoveModel_clears_nonempty_slot:
  "(executor_model_index m < length (models f) \<and> models f ! executor_model_index m \<noteq> None \<longrightarrow>
      (\<exists>f'. RemoveModel m f = Inr f' \<and>
            length (models f') = length (models f) \<and>
            models f' ! executor_model_index m = None \<and>
            (\<forall>j. j \<noteq> executor_model_index m \<longrightarrow> models f' ! j = models f ! j) \<and>
            f' = f\<lparr>models := models f'\<rparr>)) \<and>
   (\<not> (executor_model_index m < length (models f) \<and> models f ! executor_model_index m \<noteq> None) \<longrightarrow>
      (\<exists>e. RemoveModel m f = Inl e))"
  by (auto simp: RemoveModel_def Let_def)

theorem RemoveModel_clears_nonempty_slot_witness:
  "(\<exists>f'. RemoveModel \<lparr>executor_model_index = 1, model_session_id = ''a''\<rparr>
           ((follower_init 0)\<lparr>models := [None, Some \<lparr>executor_model_index = 1, model_session_id = ''a''\<rparr>]\<rparr>)
         = Inr f' \<and> models f' = [None, None]) \<and>
   (\<exists>e. RemoveModel \<lparr>executor_model_index = 1, model_session_id = ''a''\<rparr> (follower_init 0) = Inl e)"
proof -
  let ?m = "\<lparr>executor_model_index = 1, model_session_id = ''a''\<rparr>"
  let ?f = "(follower_init 0)\<lparr>models := [None, Some ?m]\<rparr>"
  have pre: "executor_model_index ?m < length (models ?f) \<and> models ?f ! executor_model_index ?m \<noteq> None"
    by simp
  from RemoveModel_clears_nonempty_slot [of ?m ?f] pre
  obtain f' where f': "RemoveModel ?m ?f = Inr f'" "length (models f') = length (models ?f)"
    "models f' ! executor_model_index ?m = None"
    "\<forall>j. j \<noteq> executor_model_index ?m \<longrightarrow> models f' ! j = models ?f ! j"
    by blast
  have "length (models f') = 2" using f'(2) by simp
  moreover have "models f' ! 0 = None" using f'(4) by simp
  moreover have "models f' ! 1 = None" using f'(3) by simp
  ultimately have "models f' = [None, None]"
    by (cases "models f'"; cases "tl (models f')"; cases "tl (tl (models f'))") auto
  moreover have "\<not> (executor_model_index ?m < length (models (follower_init 0)) \<and>
            models (follower_init 0) ! executor_model_index ?m \<noteq> None)"
    by (simp add: follower_init_def)
  with RemoveModel_clears_nonempty_slot [of ?m "follower_init 0"]
  have "\<exists>e. RemoveModel ?m (follower_init 0) = Inl e" by blast
  ultimately show ?thesis using f'(1) by blast
qed

text \<open>
  C8 as the claim states it fails: after \<open>AddModel\<close> has installed one executor at index
  \<open>0\<close>, \<open>RemoveModel\<close> is called with another executor of the same index; it passes
  its checks and clears the slot.
\<close>

theorem RemoveModel_other_executor_counterexample:
  "executor_at 0 ''resnet'' \<noteq> executor_at 0 ''vgg'' \<and>
   follower_run [Call_AddModel (executor_at 0 ''vgg''), Call_RemoveModel (executor_at 0 ''resnet'')]
     (follower_init 0)
   = Inr ((follower_init 0)\<lparr>models := [None]\<rparr>)"
  by (simp add: follower_step_def lift_check_def AddModel_def RemoveModel_def resize_models_def
      follower_init_def executor_at_def)

section \<open>The claims about the queue-pair transitions\<close>

text \<open>
  C7. The last thing \<open>TransitQueuePairToRTR\<close> does before it returns or dies is to call
  \<open>ibv_modify_qp\<close> with the mask \<open>IBV_QP_STATE | IBV_QP_AV | IBV_QP_PATH_MTU |
  IBV_QP_DEST_QPN | IBV_QP_RQ_PSN | IBV_QP_MAX_DEST_RD_ATOMIC | IBV_QP_MIN_RNR_TIMER\<close>, so
  that each attribute named here is one the verb is told to apply, and with the state RTR,
  path MTU \<open>IBV_MTU_1024\<close> (1024 bytes), \<open>rq_psn = 0\<close>, \<open>max_dest_rd_atomic = 1\<close>,
  \<open>min_rnr_timer = 12\<close>, the peer's queue-pair number and the low 8 bits of the device
  port; a peer \<open>lid\<close> of \<open>0\<close> takes the RoCE path (\<open>is_global = 1\<close>, \<open>grh.dgid\<close>
  the peer's \<open>gid\<close>, \<open>hop_limit = 1\<close>), any other \<open>lid\<close> the InfiniBand path
  (\<open>dlid\<close> the peer's \<open>lid\<close>, \<open>is_global = 0\<close>). \<open>TransitQueuePairToRTS\<close> calls
  it with the mask \<open>IBV_QP_STATE | IBV_QP_SQ_PSN | IBV_QP_TIMEOUT | IBV_QP_RETRY_CNT |
  IBV_QP_RNR_RETRY | IBV_QP_MAX_QP_RD_ATOMIC\<close> and with the state RTS, \<open>timeout = 8\<close>,
  \<open>retry_cnt = 7\<close>, \<open>rnr_retry = 7\<close>, \<open>max_rd_atomic = 1\<close> and \<open>sq_psn = 0\<close>.
\<close>

theorem queue_pair_transition_attributes:
  "(\<exists>a. last (trace (connection_of (TransitQueuePairToRTR V msg c))) =
          Call_ibv_modify_qp a
            {IBV_QP_STATE, IBV_QP_AV, IBV_QP_PATH_MTU, IBV_QP_DEST_QPN, IBV_QP_RQ_PSN,
             IBV_QP_MAX_DEST_RD_ATOMIC, IBV_QP_MIN_RNR_TIMER} \<and>
        qp_state a = IBV_QPS_RTR \<and>
        path_mtu a = IBV_MTU_1024 \<and> ibv_mtu_bytes (path_mtu a) = Some 1024 \<and>
        rq_psn a = 0 \<and> max_dest_rd_atomic a = 1 \<and> min_rnr_timer a = 12 \<and>
        dest_qp_num a = qp_num msg \<and> ah_port_num (ah_attr a) = ucast (dev_port c) \<and>
        (lid msg = 0 \<longrightarrow>
           is_global (ah_attr a) = 1 \<and> grh_dgid (ah_attr a) = gid msg \<and>
           grh_hop_limit (ah_attr a) = 1 \<and> dlid (ah_attr a) = 0) \<and>
        (lid msg \<noteq> 0 \<longrightarrow> is_global (ah_attr a) = 0 \<and> dlid (ah_attr a) = lid msg)) \<and>
   (\<exists>a. last (trace (connection_of (TransitQueuePairToRTS V c))) =
          Call_ibv_modify_qp a
            {IBV_QP_STATE, IBV_QP_SQ_PSN, IBV_QP_TIMEOUT, IBV_QP_RETRY_CNT, IBV_QP_RNR_RETRY,
             IBV_QP_MAX_QP_RD_ATOMIC} \<and>
        qp_state a = IBV_QPS_RTS \<and>
        timeout a = 8 \<and> retry_cnt a = 7 \<and> rnr_retry a = 7 \<and> max_rd_atomic a = 1 \<and>
        sq_psn a = 0)"
  by (simp add: TransitQueuePairToRTR_def TransitQueuePairToRTS_def Let_def emit_def RTR_attr_def
      RTS_attr_def RTR_mask_def RTS_mask_def zero_qp_attr_def IBV_MTU_1024_def ibv_mtu_bytes_def)

text \<open>
  Inputs for C7: a RoCE peer (\<open>lid = 0\<close>) and an InfiniBand peer (\<open>lid = 5\<close>) on device
  port 1, the transition to RTS, and a device port of 257, of which \<open>port_num\<close> keeps 1.
\<close>

theorem queue_pair_transition_attributes_witness:
  "(\<exists>a. last (trace (connection_of (TransitQueuePairToRTR verbs_succeed
             \<lparr>lid = 0, gid = \<lparr>subnet_prefix = 1, interface_id = 2\<rparr>, qp_num = 17\<rparr>
             (Connection_constructed False 1)))) =
          Call_ibv_modify_qp a
            {IBV_QP_STATE, IBV_QP_AV, IBV_QP_PATH_MTU, IBV_QP_DEST_QPN, IBV_QP_RQ_PSN,
             IBV_QP_MAX_DEST_RD_ATOMIC, IBV_QP_MIN_RNR_TIMER} \<and>
        path_mtu a = IBV_MTU_1024 \<and> dest_qp_num a = 17 \<and> ah_port_num (ah_attr a) = 1 \<and>
        is_global (ah_attr a) = 1 \<and> grh_dgid (ah_attr a) = \<lparr>subnet_prefix = 1, interface_id = 2\<rparr> \<and>
        grh_hop_limit (ah_attr a) = 1) \<and>
   (\<exists>a. last (trace (connection_of (TransitQueuePairToRTR verbs_succeed
             \<lparr>lid = 5, gid = \<lparr>subnet_prefix = 0, interface_id = 0\<rparr>, qp_num = 17\<rparr>
             (Connection_constructed False 257)))) =
          Call_ibv_modify_qp a
            {IBV_QP_STATE, IBV_QP_AV, IBV_QP_PATH_MTU, IBV_QP_DEST_QPN, IBV_QP_RQ_PSN,
             IBV_QP_MAX_DEST_RD_ATOMIC, IBV_QP_MIN_RNR_TIMER} \<and>
        is_global (ah_attr a) = 0 \<and> dlid (ah_attr a) = 5 \<and> ah_port_num (ah_attr a) = 1) \<and>
   (\<exists>a. last (trace (connection_of (TransitQueuePairToRTS verbs_succeed
             (Connection_constructed False 1)))) =
          Call_ibv_modify_qp a
            {IBV_QP_STATE, IBV_QP_SQ_PSN, IBV_QP_TIMEOUT, IBV_QP_RETRY_CNT, IBV_QP_RNR_RETRY,
             IBV_QP_MAX_QP_RD_ATOMIC} \<and>
        timeout a = 8 \<and> retry_cnt a = 7 \<and> rnr_retry a = 7 \<and> max_rd_atomic a = 1)"
proof -
  let ?roce = "\<lparr>lid = 0, gid = \<lparr>subnet_prefix = 1, interface_id = 2\<rparr>, qp_num = 17\<rparr>"
  let ?ib = "\<lparr>lid = 5, gid = \<lparr>subnet_prefix = 0, interface_id = 0\<rparr>, qp_num = 17\<rparr>"
  let ?c = "Connection_constructed False 1"
  let ?d = "Connection_constructed False 257"
  have 1: "lid ?roce = 0" by simp
  have 2: "lid ?ib \<noteq> 0" by simp
  have 3: "(ucast (dev_port ?c) :: 8 word) = 1" by (simp add: Connection_constructed_def)
  have 4: "(ucast (dev_port ?d) :: 8 word) = 1" by (simp add: Connection_constructed_def)
  from queue_pair_transition_attributes [of verbs_succeed ?roce ?c] 1 3
  have a: "\<exists>a. last (trace (connection_of (TransitQueuePairToRTR verbs_succeed ?roce ?c))) =
          Call_ibv_modify_qp a
            {IBV_QP_STATE, IBV_QP_AV, IBV_QP_PATH_MTU, IBV_QP_DEST_QPN, IBV_QP_RQ_PSN,
             IBV_QP_MAX_DEST_RD_ATOMIC, IBV_QP_MIN_RNR_TIMER} \<and>
        path_mtu a = IBV_MTU_1024 \<and> dest_qp_num a = 17 \<and> ah_port_num (ah_attr a) = 1 \<and>
        is_global (ah_attr a) = 1 \<and> grh_dgid (ah_attr a) = \<lparr>subnet_prefix = 1, interface_id = 2\<rparr> \<and>
        grh_hop_limit (ah_attr a) = 1"
    by (elim conjE exE) auto
  from queue_pair_transition_attributes [of verbs_succeed ?ib ?d] 2 4
  have b: "\<exists>a. last (trace (connection_of (TransitQueuePairToRTR verbs_succeed ?ib ?d))) =
          Call_ibv_modify_qp a
            {IBV_QP_STATE, IBV_QP_AV, IBV_QP_PATH_MTU, IBV_QP_DEST_QPN, IBV_QP_RQ_PSN,
             IBV_QP_MAX_DEST_RD_ATOMIC, IBV_QP_MIN_RNR_TIMER} \<and>
        is_global (ah_attr a) = 0 \<and> dlid (ah_attr a) = 5 \<and> ah_port_num (ah_attr a) = 1"
    by (elim conjE exE) auto
  from queue_pair_transition_attributes [of verbs_succeed ?ib ?c]
  have c: "\<exists>a. last (trace (connection_of (TransitQueuePairToRTS verbs_succeed ?c))) =
          Call_ibv_modify_qp a
            {IBV_QP_STATE, IBV_QP_SQ_PSN, IBV_QP_TIMEOUT, IBV_QP_RETRY_CNT, IBV_QP_RNR_RETRY,
             IBV_QP_MAX_QP_RD_ATOMIC} \<and>
        timeout a = 8 \<and> retry_cnt a = 7 \<and> rnr_retry a = 7 \<and> max_rd_atomic a = 1"
    by (elim conjE exE) auto
  show ?thesis using a b c by blast
qed

section \<open>The claim about the dispatch ingress\<close>




section \<open>The claims about the connection\<close>

lemma outstanding_append:
  "outstanding_receives (es @ es') = outstanding_receives es + outstanding_receives es'"
  by (simp add: outstanding_receives_def)

lemma and_then_Returned:
  "and_then r k = Returned c' \<Longrightarrow> \<exists>c1. r = Returned c1 \<and> k c1 = Returned c'"
  by (cases r) (simp_all add: and_then_def)

lemma and_then_simps [simp]:
  "and_then (Returned c) k = k c" "and_then (Died msg c) k = Died msg c"
  by (simp_all add: and_then_def)

text \<open>What \<open>PostReceive\<close> does, whether the verb succeeds or not.\<close>

lemma PostReceive_effect:
  "\<exists>wr. recv_wr_id wr = next_wr_id c \<and>
     trace (connection_of (PostReceive V c)) =
       trace c @ [Ctx_emplace (next_wr_id c) \<lparr>block = blocks_handed_out c\<rparr>,
                  Stderr ''POST --> (RECV WR)'', Call_ibv_post_recv wr] \<and>
     wr_ctx (connection_of (PostReceive V c)) =
       emplace (next_wr_id c) \<lparr>block = blocks_handed_out c\<rparr> (wr_ctx c) \<and>
     is_connected (connection_of (PostReceive V c)) = is_connected c \<and>
     (PostReceive V c = Returned (connection_of (PostReceive V c)) \<longleftrightarrow> ibv_post_recv V wr = 0)"
  by (simp add: PostReceive_def Let_def Allocate_def emit_def)

lemma PostReceive_Returned:
  assumes "PostReceive V c = Returned c'"
  shows "\<exists>wr. trace c' = trace c @ [Ctx_emplace (next_wr_id c) \<lparr>block = blocks_handed_out c\<rparr>,
                  Stderr ''POST --> (RECV WR)'', Call_ibv_post_recv wr] \<and>
         wr_ctx c' = emplace (next_wr_id c) \<lparr>block = blocks_handed_out c\<rparr> (wr_ctx c) \<and>
         is_connected c' = is_connected c"
  using PostReceive_effect [of c V] assms by auto

lemma post_receives_Returned:
  "post_receives V n c = Returned c' \<Longrightarrow>
   \<exists>es. trace c' = trace c @ es \<and> length (filter is_post_recv es) = n \<and>
        filter is_recv_completion es = [] \<and> filter is_handler_call es = [] \<and>
        is_connected c' = is_connected c"
proof (induction n arbitrary: c)
  case 0
  then show ?case by simp
next
  case (Suc n)
  from Suc.prems obtain c1 where p: "PostReceive V c = Returned c1"
    and r: "post_receives V n c1 = Returned c'"
    by (auto dest: and_then_Returned)
  from PostReceive_Returned [OF p] obtain wr where
    t1: "trace c1 = trace c @ [Ctx_emplace (next_wr_id c) \<lparr>block = blocks_handed_out c\<rparr>,
                  Stderr ''POST --> (RECV WR)'', Call_ibv_post_recv wr]"
    and c1: "is_connected c1 = is_connected c" by blast
  from Suc.IH [OF r] obtain es where
    es: "trace c' = trace c1 @ es" "length (filter is_post_recv es) = n"
      "filter is_recv_completion es = []" "filter is_handler_call es = []"
      "is_connected c' = is_connected c1" by blast
  show ?case
    by (rule exI [of _ "[Ctx_emplace (next_wr_id c) \<lparr>block = blocks_handed_out c\<rparr>,
                  Stderr ''POST --> (RECV WR)'', Call_ibv_post_recv wr] @ es"])
       (use t1 c1 es in simp)
qed

lemma MarkConnected_Returned:
  assumes "MarkConnected V k c = Returned c'"
  shows "is_connected c' \<and>
    (\<exists>es. trace c' = trace c @ es @ [Store_is_connected True] \<and>
          length (filter is_post_recv es) = k \<and> filter is_recv_completion es = [])"
proof -
  let ?c2 = "emit [Stderr ''qp_state: ...''] (emit [Call_ibv_query_qp] c)"
  let ?start = "if poller_type ?c2 = kBlocking
                   then (if ibv_req_notify_cq V \<noteq> 0
                         then Died ''ibv_req_notify_cq'' (emit [Call_ibv_req_notify_cq] ?c2)
                         else Returned (emit [Call_ibv_req_notify_cq, Start_poller_thread kBlocking] ?c2))
                   else Returned (emit [Start_poller_thread kSpinning] ?c2)"
  from assms have ok: "ibv_query_qp V = 0" "queried_qp_state V = IBV_QPS_RTS"
    and r: "and_then ?start
                  (\<lambda>c3. and_then (post_receives V k c3)
                     (\<lambda>c4. Returned (emit [Store_is_connected True] (c4\<lparr>is_connected := True\<rparr>))))
            = Returned c'"
    by (auto simp: MarkConnected_def Let_def split: if_splits)
  from and_then_Returned [OF r] obtain c3 where
    s: "?start = Returned c3"
    and r2: "and_then (post_receives V k c3)
                     (\<lambda>c4. Returned (emit [Store_is_connected True] (c4\<lparr>is_connected := True\<rparr>)))
             = Returned c'" by blast
  from and_then_Returned [OF r2] obtain c4 where
    p: "post_receives V k c3 = Returned c4"
    and c': "c' = emit [Store_is_connected True] (c4\<lparr>is_connected := True\<rparr>)" by auto
  from s obtain pre where pre: "trace c3 = trace c @ pre" "filter is_post_recv pre = []"
    "filter is_recv_completion pre = []"
    by (auto simp: emit_def split: if_splits)
  from post_receives_Returned [OF p] obtain es where
    es: "trace c4 = trace c3 @ es" "length (filter is_post_recv es) = k"
      "filter is_recv_completion es = []" by blast
  have "trace c' = trace c @ (pre @ es) @ [Store_is_connected True]"
    using c' pre es by (simp add: emit_def)
  moreover have "length (filter is_post_recv (pre @ es)) = k" using pre es by simp
  moreover have "filter is_recv_completion (pre @ es) = []" using pre es by simp
  moreover have "is_connected c'" using c' by (simp add: emit_def)
  ultimately show ?thesis by blast
qed

lemma backlog_kept_refl: "outstanding_receives t = k \<Longrightarrow> backlog_kept k t t"
  by (simp add: backlog_kept_def)

lemma backlog_kept_trans:
  assumes a: "backlog_kept k t t'" and b: "backlog_kept k t' t''"
  shows "backlog_kept k t t''"
proof -
  from a obtain es where es: "t' = t @ es" by (auto simp: backlog_kept_def)
  from b obtain es' where es': "t'' = t' @ es'" by (auto simp: backlog_kept_def)
  have 1: "outstanding_receives (take n t'') = k"
    if n: "length t \<le> n" "n < length t''" "is_handler_call (t'' ! n)" for n
  proof (cases "n < length t'")
    case True
    then have "t'' ! n = t' ! n" "take n t'' = take n t'" using es' by (simp_all add: nth_append)
    then show ?thesis using a n True by (simp add: backlog_kept_def)
  next
    case False
    then show ?thesis using b n by (simp add: backlog_kept_def)
  qed
  have 2: "outstanding_receives (take n t'') = k \<or> outstanding_receives (take n t'') = k - 1"
    if n: "length t \<le> n" "n \<le> length t''" for n
  proof (cases "n \<le> length t'")
    case True
    then have "take n t'' = take n t'" using es' by simp
    then show ?thesis using a n True by (simp add: backlog_kept_def)
  next
    case False
    then show ?thesis using b n by (simp add: backlog_kept_def)
  qed
  have 3: "\<exists>es''. t'' = t @ es''" "outstanding_receives t'' = k"
    using b es es' by (auto simp: backlog_kept_def)
  show ?thesis unfolding backlog_kept_def using 1 2 3 by blast
qed

lemma backlog_kept_appendI:
  assumes k: "outstanding_receives t = k" and k': "outstanding_receives es = 0"
    and h: "\<And>j. j < length es \<Longrightarrow> is_handler_call (es ! j) \<Longrightarrow> outstanding_receives (take j es) = 0"
    and w: "\<And>j. j \<le> length es \<Longrightarrow>
              outstanding_receives (take j es) = 0 \<or> outstanding_receives (take j es) = - 1"
  shows "backlog_kept k t (t @ es)"
proof -
  have 2: "outstanding_receives (take n (t @ es)) = k \<or>
           outstanding_receives (take n (t @ es)) = k - 1"
    if n: "length t \<le> n" "n \<le> length (t @ es)" for n
  proof -
    let ?j = "n - length t"
    have j: "?j \<le> length es" using n by simp
    have "take n (t @ es) = t @ take ?j es" using n by simp
    then show ?thesis using w [OF j] k by (auto simp: outstanding_append)
  qed
  have "outstanding_receives (take n (t @ es)) = k"
    if n: "length t \<le> n" "n < length (t @ es)" "is_handler_call ((t @ es) ! n)" for n
  proof -
    let ?j = "n - length t"
    have j: "?j < length es" using n by simp
    have "(t @ es) ! n = es ! ?j" using n by (simp add: nth_append)
    then have "outstanding_receives (take ?j es) = 0" using h [OF j] n by simp
    moreover have "take n (t @ es) = t @ take ?j es" using n by simp
    ultimately show ?thesis using k by (simp add: outstanding_append)
  qed
  then show ?thesis using k k' 2 unfolding backlog_kept_def
    by (simp add: outstanding_append)
qed

lemma HandleWorkCompletion_recv:
  assumes "HandleWorkCompletion V wc c = Returned c'" and "wc_opcode wc AND IBV_WC_RECV \<noteq> 0"
  shows "\<exists>entry wr. wc_status wc = IBV_WC_SUCCESS \<and> wr_ctx c (wc_wr_id wc) = Some entry \<and>
     trace c' = trace c @
        [Polled wc, Ctx_emplace (next_wr_id c) \<lparr>block = blocks_handed_out c\<rparr>,
         Stderr ''POST --> (RECV WR)'', Call_ibv_post_recv wr, Handler_OnRecv (buf entry)] \<and>
     wr_ctx c' = emplace (next_wr_id c) \<lparr>block = blocks_handed_out c\<rparr>
                   ((wr_ctx c)(wc_wr_id wc \<mapsto> \<lparr>buf = None\<rparr>)) \<and>
     is_connected c' = is_connected c"
proof -
  let ?c = "emit [Polled wc] c"
  from assms have st: "wc_status wc = IBV_WC_SUCCESS"
    by (auto simp: HandleWorkCompletion_def Let_def split: if_splits)
  from assms st obtain entry where en: "wr_ctx c (wc_wr_id wc) = Some entry"
    by (cases "wr_ctx c (wc_wr_id wc)") (auto simp: HandleWorkCompletion_def Let_def emit_def)
  let ?c1 = "?c\<lparr>wr_ctx := (wr_ctx ?c)(wc_wr_id wc \<mapsto> \<lparr>buf = None\<rparr>)\<rparr>"
  from assms st en have "and_then (PostReceive V ?c1)
                         (\<lambda>c2. Returned (emit [Handler_OnRecv (buf entry)] c2)) = Returned c'"
    by (simp add: HandleWorkCompletion_def Let_def emit_def)
  from and_then_Returned [OF this] obtain c2 where
    p: "PostReceive V ?c1 = Returned c2" and c': "c' = emit [Handler_OnRecv (buf entry)] c2"
    by auto
  from PostReceive_Returned [OF p] obtain wr where
    "trace c2 = trace ?c1 @ [Ctx_emplace (next_wr_id ?c1) \<lparr>block = blocks_handed_out ?c1\<rparr>,
                Stderr ''POST --> (RECV WR)'', Call_ibv_post_recv wr]"
    "wr_ctx c2 = emplace (next_wr_id ?c1) \<lparr>block = blocks_handed_out ?c1\<rparr> (wr_ctx ?c1)"
    "is_connected c2 = is_connected ?c1" by blast
  then have "trace c' = trace c @
        [Polled wc, Ctx_emplace (next_wr_id c) \<lparr>block = blocks_handed_out c\<rparr>,
         Stderr ''POST --> (RECV WR)'', Call_ibv_post_recv wr, Handler_OnRecv (buf entry)]"
    "wr_ctx c' = emplace (next_wr_id c) \<lparr>block = blocks_handed_out c\<rparr>
                   ((wr_ctx c)(wc_wr_id wc \<mapsto> \<lparr>buf = None\<rparr>))"
    "is_connected c' = is_connected c"
    using c' by (simp_all add: emit_def)
  then show ?thesis using st en by blast
qed

lemma HandleWorkCompletion_other:
  assumes "HandleWorkCompletion V wc c = Returned c'" and "wc_opcode wc AND IBV_WC_RECV = 0"
  shows "\<exists>entry e. wc_status wc = IBV_WC_SUCCESS \<and> wr_ctx c (wc_wr_id wc) = Some entry \<and>
     trace c' = trace c @ [Polled wc, e] \<and>
     (e = Handler_OnSent (buf entry) \<and> wc_opcode wc = IBV_WC_SEND \<or>
      e = Handler_OnRdmaReadComplete (buf entry) \<and> wc_opcode wc = IBV_WC_RDMA_READ \<or>
      e = Stderr ''Unknown wc->opcode'' \<and> wc_opcode wc \<noteq> IBV_WC_SEND \<and>
        wc_opcode wc \<noteq> IBV_WC_RDMA_READ) \<and>
     wr_ctx c' = (wr_ctx c)(wc_wr_id wc \<mapsto> \<lparr>buf = None\<rparr>) \<and>
     is_connected c' = is_connected c"
proof -
  from assms have st: "wc_status wc = IBV_WC_SUCCESS"
    by (auto simp: HandleWorkCompletion_def Let_def split: if_splits)
  from assms st obtain entry where en: "wr_ctx c (wc_wr_id wc) = Some entry"
    by (cases "wr_ctx c (wc_wr_id wc)") (auto simp: HandleWorkCompletion_def Let_def emit_def)
  from assms st en show ?thesis
    by (auto simp: HandleWorkCompletion_def Let_def emit_def split: if_splits)
qed

lemma AsyncSend_Returned:
  assumes "AsyncSend V b c = Returned c'"
  shows "is_connected c \<and> is_connected c' \<and>
    (\<exists>wr. trace c' = trace c @ [Ctx_emplace (next_wr_id c) b, Call_ibv_post_send wr,
                                Stderr ''POST --> (SEND WR)''])"
  using assms by (auto simp: AsyncSend_def Let_def emit_def split: if_splits)

lemma AsyncRead_Returned:
  assumes "AsyncRead V offset len c = Returned c'"
  shows "is_connected c' = is_connected c \<and>
    (\<exists>wr. trace c' = trace c @ [Ctx_emplace (next_wr_id c) \<lparr>block = blocks_handed_out c\<rparr>,
                                Call_ibv_post_send wr, Stderr ''POST --> (READ WR)''])"
  using assms by (auto simp: AsyncRead_def Let_def emit_def Allocate_def split: if_splits)

lemma connection_step_backlog:
  assumes k: "outstanding_receives (trace c) = k" and st: "connection_step V i c = Returned c'"
  shows "backlog_kept k (trace c) (trace c') \<and> is_connected c' = is_connected c"
proof (cases i)
  case (Poller_handles wc)
  with st have h: "HandleWorkCompletion V wc c = Returned c'" by (simp add: connection_step_def)
  show ?thesis
  proof (cases "wc_opcode wc AND IBV_WC_RECV \<noteq> 0")
    case True
    from HandleWorkCompletion_recv [OF h True] obtain entry wr where
      x: "wc_status wc = IBV_WC_SUCCESS \<and> wr_ctx c (wc_wr_id wc) = Some entry \<and>
     trace c' = trace c @
        [Polled wc, Ctx_emplace (next_wr_id c) \<lparr>block = blocks_handed_out c\<rparr>,
         Stderr ''POST --> (RECV WR)'', Call_ibv_post_recv wr, Handler_OnRecv (buf entry)] \<and>
     wr_ctx c' = emplace (next_wr_id c) \<lparr>block = blocks_handed_out c\<rparr>
                   ((wr_ctx c)(wc_wr_id wc \<mapsto> \<lparr>buf = None\<rparr>)) \<and>
     is_connected c' = is_connected c"
      by (elim exE) (rule that)
    then have s: "wc_status wc = IBV_WC_SUCCESS" and ic: "is_connected c' = is_connected c"
      and t': "trace c' = trace c @
                 [Polled wc, Ctx_emplace (next_wr_id c) \<lparr>block = blocks_handed_out c\<rparr>,
                  Stderr ''POST --> (RECV WR)'', Call_ibv_post_recv wr, Handler_OnRecv (buf entry)]"
      by simp_all
    have "backlog_kept k (trace c) (trace c @
                 [Polled wc, Ctx_emplace (next_wr_id c) \<lparr>block = blocks_handed_out c\<rparr>,
                  Stderr ''POST --> (RECV WR)'', Call_ibv_post_recv wr, Handler_OnRecv (buf entry)])"
      by (rule backlog_kept_appendI [OF k])
         (use True s in \<open>auto simp: outstanding_receives_def less_Suc_eq le_Suc_eq nth_Cons' take_Cons'\<close>)
    then show ?thesis using t' ic by simp
  next
    case False
    then have z: "wc_opcode wc AND IBV_WC_RECV = 0" by simp
    from HandleWorkCompletion_other [OF h z] obtain entry e where
      x: "wc_status wc = IBV_WC_SUCCESS \<and> wr_ctx c (wc_wr_id wc) = Some entry \<and>
     trace c' = trace c @ [Polled wc, e] \<and>
     (e = Handler_OnSent (buf entry) \<and> wc_opcode wc = IBV_WC_SEND \<or>
      e = Handler_OnRdmaReadComplete (buf entry) \<and> wc_opcode wc = IBV_WC_RDMA_READ \<or>
      e = Stderr ''Unknown wc->opcode'' \<and> wc_opcode wc \<noteq> IBV_WC_SEND \<and>
        wc_opcode wc \<noteq> IBV_WC_RDMA_READ) \<and>
     wr_ctx c' = (wr_ctx c)(wc_wr_id wc \<mapsto> \<lparr>buf = None\<rparr>) \<and>
     is_connected c' = is_connected c"
      by (elim exE) (rule that)
    then have ic: "is_connected c' = is_connected c"
      and t': "trace c' = trace c @ [Polled wc, e]"
      and e: "e = Handler_OnSent (buf entry) \<or> e = Handler_OnRdmaReadComplete (buf entry) \<or>
                   e = Stderr ''Unknown wc->opcode''" by auto
    have "backlog_kept k (trace c) (trace c @ [Polled wc, e])"
      by (rule backlog_kept_appendI [OF k])
         (use z e in \<open>auto simp: outstanding_receives_def less_Suc_eq le_Suc_eq nth_Cons' take_Cons'\<close>)
    then show ?thesis using t' ic by simp
  qed
next
  case (Call_AsyncSend b)
  with st have h: "AsyncSend V b c = Returned c'" by (simp add: connection_step_def)
  from AsyncSend_Returned [OF h] obtain wr where
    ic: "is_connected c' = is_connected c"
    and t': "trace c' = trace c @ [Ctx_emplace (next_wr_id c) b, Call_ibv_post_send wr,
                                Stderr ''POST --> (SEND WR)'']" by auto
  have "backlog_kept k (trace c) (trace c @ [Ctx_emplace (next_wr_id c) b, Call_ibv_post_send wr,
                                Stderr ''POST --> (SEND WR)''])"
    by (rule backlog_kept_appendI [OF k])
       (auto simp: outstanding_receives_def less_Suc_eq le_Suc_eq nth_Cons' take_Cons')
  then show ?thesis using t' ic by simp
next
  case (Call_AsyncRead offset len)
  with st have h: "AsyncRead V offset len c = Returned c'" by (simp add: connection_step_def)
  from AsyncRead_Returned [OF h] obtain wr where
    ic: "is_connected c' = is_connected c"
    and t': "trace c' = trace c @ [Ctx_emplace (next_wr_id c) \<lparr>block = blocks_handed_out c\<rparr>,
                                Call_ibv_post_send wr, Stderr ''POST --> (READ WR)'']" by auto
  have "backlog_kept k (trace c) (trace c @ [Ctx_emplace (next_wr_id c) \<lparr>block = blocks_handed_out c\<rparr>,
                                Call_ibv_post_send wr, Stderr ''POST --> (READ WR)''])"
    by (rule backlog_kept_appendI [OF k])
       (auto simp: outstanding_receives_def less_Suc_eq le_Suc_eq nth_Cons' take_Cons')
  then show ?thesis using t' ic by simp
qed

lemma connection_run_backlog:
  "outstanding_receives (trace c) = k \<Longrightarrow> connection_run V ins c = Returned c' \<Longrightarrow>
   backlog_kept k (trace c) (trace c') \<and> is_connected c' = is_connected c"
proof (induction ins arbitrary: c)
  case Nil
  then show ?case by (simp add: backlog_kept_refl)
next
  case (Cons i ins)
  from Cons.prems(2) obtain c1 where s: "connection_step V i c = Returned c1"
    and r: "connection_run V ins c1 = Returned c'"
    by (auto dest: and_then_Returned)
  from connection_step_backlog [OF Cons.prems(1) s]
  have b1: "backlog_kept k (trace c) (trace c1)" and i1: "is_connected c1 = is_connected c" by auto
  then have "outstanding_receives (trace c1) = k" by (simp add: backlog_kept_def)
  from Cons.IH [OF this r] b1 i1 show ?case by (auto intro: backlog_kept_trans)
qed

lemma post_receives_2:
  "post_receives V 2 c = and_then (PostReceive V c) (\<lambda>c1. and_then (PostReceive V c1) Returned)"
proof -
  have "post_receives V (Suc (Suc 0)) c
        = and_then (PostReceive V c) (\<lambda>c1. and_then (PostReceive V c1) Returned)"
    by (simp add: and_then_def fun_eq_iff split: conn_end.splits)
  then show ?thesis by (simp add: numeral_2_eq_2)
qed

lemmas connection_eval =
  MarkConnected_def PostReceive_def AsyncSend_def AsyncRead_def HandleWorkCompletion_def
  connection_step_def TransitQueuePairToRTR_def TransitQueuePairToRTS_def
  RecvConnInfo_callback_def RecvMemoryRegion_callback_def SendMemoryRegion_def
  RecvMemoryRegion_def Allocate_def emit_def emplace_def block_data_def
  kRdmaBufferBlockBits_def verbs_succeed_def Connection_constructed_def Let_def
  IBV_WC_SUCCESS_def IBV_WC_SEND_def IBV_WC_RDMA_READ_def IBV_WC_RECV_def post_receives_2

text \<open>
  C6, as amended. \<open>MarkConnected\<close> posts \<open>kRecvBacklog\<close> receives before it stores
  \<open>true\<close> to \<open>is_connected_\<close>. From then on, whatever completions the poller handles
  and whatever the application sends and reads, the connection stays connected, and
  \<open>kRecvBacklog\<close> receives are outstanding after every step and at every call of the
  handler; at any other moment \<open>kRecvBacklog\<close> or one fewer are outstanding. For a
  completion whose opcode has the bit \<open>IBV_WC_RECV\<close>, \<open>HandleWorkCompletion\<close> posts
  one receive and only then calls \<open>OnRecv\<close>. A receive counts as outstanding from
  \<open>ibv_post_recv\<close> until the poller takes its completion.
\<close>

theorem receive_backlog_maintained:
  assumes fresh: "outstanding_receives (trace c) = 0"
    and mc: "MarkConnected V kRecvBacklog c = Returned c1"
    and run: "connection_run V ins c1 = Returned c2"
  shows "is_connected c1 \<and> is_connected c2 \<and>
     (\<exists>es. trace c1 = trace c @ es @ [Store_is_connected True] \<and>
           length (filter is_post_recv es) = kRecvBacklog) \<and>
     outstanding_receives (trace c1) = int kRecvBacklog \<and>
     outstanding_receives (trace c2) = int kRecvBacklog \<and>
     (\<forall>n. length (trace c1) \<le> n \<and> n < length (trace c2) \<and> is_handler_call (trace c2 ! n) \<longrightarrow>
          outstanding_receives (take n (trace c2)) = int kRecvBacklog) \<and>
     (\<forall>n. length (trace c1) \<le> n \<and> n \<le> length (trace c2) \<longrightarrow>
          outstanding_receives (take n (trace c2)) = int kRecvBacklog \<or>
          outstanding_receives (take n (trace c2)) = int kRecvBacklog - 1) \<and>
     (\<forall>wc d d'. HandleWorkCompletion V wc d = Returned d' \<and> wc_opcode wc AND IBV_WC_RECV \<noteq> 0 \<longrightarrow>
        (\<exists>e wr b. trace d' = trace d @ [Polled wc, e, Stderr ''POST --> (RECV WR)'',
                                        Call_ibv_post_recv wr, Handler_OnRecv b]))"
proof -
  from MarkConnected_Returned [OF mc] obtain es where
    c1: "is_connected c1" and es: "trace c1 = trace c @ es @ [Store_is_connected True]"
      "length (filter is_post_recv es) = kRecvBacklog" "filter is_recv_completion es = []"
    by blast
  have o1: "outstanding_receives (trace c1) = int kRecvBacklog"
    using fresh es by (simp add: outstanding_append) (simp add: outstanding_receives_def)
  from connection_run_backlog [OF o1 run]
  have b: "backlog_kept (int kRecvBacklog) (trace c1) (trace c2)" and c2: "is_connected c2"
    using c1 by auto
  have r: "\<exists>e wr b. trace d' = trace d @ [Polled wc, e, Stderr ''POST --> (RECV WR)'',
                                        Call_ibv_post_recv wr, Handler_OnRecv b]"
    if "HandleWorkCompletion V wc d = Returned d'" "wc_opcode wc AND IBV_WC_RECV \<noteq> 0"
    for wc d d'
    using HandleWorkCompletion_recv [OF that] by auto
  show ?thesis using c1 c2 es(1,2) o1 b r unfolding backlog_kept_def by blast
qed

lemmas completion_defs = recv_completion_def send_completion_def

text \<open>
  A run for C6: a backlog of two; the poller handles the completion of the first receive,
  the application sends the buffer back, and the poller handles the completion of the send.
\<close>

theorem receive_backlog_maintained_witness:
  "\<exists>c1 c2.
     MarkConnected verbs_succeed 2 (Connection_constructed False 1) = Returned c1 \<and>
     connection_run verbs_succeed
       [Poller_handles (recv_completion 0), Call_AsyncSend \<lparr>block = 0\<rparr>,
        Poller_handles (send_completion 3)] c1 = Returned c2 \<and>
     is_connected c2 \<and> outstanding_receives (trace c1) = 2 \<and>
     outstanding_receives (trace c2) = 2 \<and>
     trace c2 ! 15 = Handler_OnRecv (Some \<lparr>block = 0\<rparr>) \<and>
     outstanding_receives (take 15 (trace c2)) = 2"
proof -
  let ?c = "Connection_constructed False 1"
  let ?c1 = "connection_of (MarkConnected verbs_succeed 2 ?c)"
  let ?ins = "[Poller_handles (recv_completion 0), Call_AsyncSend \<lparr>block = 0\<rparr>,
        Poller_handles (send_completion 3)]"
  let ?c2 = "connection_of (connection_run verbs_succeed ?ins ?c1)"
  have fresh: "outstanding_receives (trace ?c) = 0"
    by (simp add: Connection_constructed_def outstanding_receives_def)
  have mc: "MarkConnected verbs_succeed 2 ?c = Returned ?c1"
    by (simp add: connection_eval)
  have run: "connection_run verbs_succeed ?ins ?c1 = Returned ?c2"
    by (simp add: connection_eval completion_defs)
  have l1: "length (trace ?c1) = 11" by (simp add: connection_eval)
  have t2: "length (trace ?c2) = 21" "trace ?c2 ! 15 = Handler_OnRecv (Some \<lparr>block = 0\<rparr>)"
    by (simp_all add: connection_eval completion_defs)
  from receive_backlog_maintained [OF fresh mc run]
  have a: "is_connected ?c2" "outstanding_receives (trace ?c1) = 2"
    "outstanding_receives (trace ?c2) = 2"
    and b: "\<forall>n. length (trace ?c1) \<le> n \<and> n < length (trace ?c2) \<and> is_handler_call (trace ?c2 ! n) \<longrightarrow>
          outstanding_receives (take n (trace ?c2)) = int 2"
    by simp_all
  have "outstanding_receives (take 15 (trace ?c2)) = 2"
    using b [rule_format, of 15] l1 t2 by simp
  then show ?thesis using mc run a t2 by blast
qed

text \<open>
  C6 as the claim states it fails between a completion and its replacement: with a backlog
  of two, the connection is connected with two receives outstanding; once the poller has taken
  the completion of the first and before \<open>PostReceive\<close> runs, one is outstanding.
\<close>

theorem backlog_one_short_counterexample:
  "is_connected (connection_of (MarkConnected verbs_succeed 2 (Connection_constructed False 1))) \<and>
   outstanding_receives
     (trace (connection_of (MarkConnected verbs_succeed 2 (Connection_constructed False 1)))) = 2 \<and>
   take 12 (trace (connection_of (HandleWorkCompletion verbs_succeed (recv_completion 0)
              (connection_of (MarkConnected verbs_succeed 2 (Connection_constructed False 1))))))
     = trace (connection_of (MarkConnected verbs_succeed 2 (Connection_constructed False 1)))
         @ [Polled (recv_completion 0)] \<and>
   outstanding_receives
     (take 12 (trace (connection_of (HandleWorkCompletion verbs_succeed (recv_completion 0)
                 (connection_of (MarkConnected verbs_succeed 2 (Connection_constructed False 1)))))))
     = 1"
  by (simp add: connection_eval completion_defs outstanding_receives_def)

text \<open>
  C5, where the code departs from the claim. \<open>HandleWorkCompletion\<close> moves the context
  out of the table's entry and does not erase the entry: after every completion it handles, the
  entry of the completed \<open>wr_id\<close> is still in \<open>wr_ctx_\<close>, holding the handle that was
  moved from, and no entry has left the table.
\<close>

theorem completed_entry_stays_in_table:
  assumes "HandleWorkCompletion V wc c = Returned c'"
  shows "wr_ctx c' (wc_wr_id wc) = Some \<lparr>buf = None\<rparr> \<and> dom (wr_ctx c) \<subseteq> dom (wr_ctx c')"
proof (cases "wc_opcode wc AND IBV_WC_RECV \<noteq> 0")
  case True
  from HandleWorkCompletion_recv [OF assms True]
  have "wr_ctx c' = emplace (next_wr_id c) \<lparr>block = blocks_handed_out c\<rparr>
                   ((wr_ctx c)(wc_wr_id wc \<mapsto> \<lparr>buf = None\<rparr>))" by auto
  then show ?thesis by (auto simp: emplace_def)
next
  case False
  then have "wc_opcode wc AND IBV_WC_RECV = 0" by simp
  from HandleWorkCompletion_other [OF assms this]
  have "wr_ctx c' = (wr_ctx c)(wc_wr_id wc \<mapsto> \<lparr>buf = None\<rparr>)" by auto
  then show ?thesis by auto
qed

text \<open>
  The failing input of C5: \<open>PostReceive\<close> on a new connection puts the entry of
  \<open>wr_id = 0\<close> into the table; the completion of that receive passes the buffer to
  \<open>OnRecv\<close>, and the entry is still there.
\<close>

theorem completed_entry_stays_in_table_witness:
  "\<exists>c1 c2. PostReceive verbs_succeed (Connection_constructed False 1) = Returned c1 \<and>
     wr_ctx c1 0 = Some \<lparr>buf = Some \<lparr>block = 0\<rparr>\<rparr> \<and>
     HandleWorkCompletion verbs_succeed (recv_completion 0) c1 = Returned c2 \<and>
     last (trace c2) = Handler_OnRecv (Some \<lparr>block = 0\<rparr>) \<and>
     wr_ctx c2 0 = Some \<lparr>buf = None\<rparr> \<and> 0 \<in> dom (wr_ctx c2)"
proof -
  let ?c1 = "connection_of (PostReceive verbs_succeed (Connection_constructed False 1))"
  let ?c2 = "connection_of (HandleWorkCompletion verbs_succeed (recv_completion 0) ?c1)"
  have p: "PostReceive verbs_succeed (Connection_constructed False 1) = Returned ?c1"
    "wr_ctx ?c1 0 = Some \<lparr>buf = Some \<lparr>block = 0\<rparr>\<rparr>"
    by (simp_all add: connection_eval)
  have h: "HandleWorkCompletion verbs_succeed (recv_completion 0) ?c1 = Returned ?c2"
    "last (trace ?c2) = Handler_OnRecv (Some \<lparr>block = 0\<rparr>)"
    by (simp_all add: connection_eval completion_defs)
  from completed_entry_stays_in_table [OF h(1)]
  have "wr_ctx ?c2 0 = Some \<lparr>buf = None\<rparr>" by (simp add: completion_defs)
  then show ?thesis using p h by blast
qed

text \<open>
  C9. On a connection that is not connected, \<open>AsyncSend\<close> ends the process with
  \<open>Send: not connected.\<close> before it does anything, while \<open>AsyncRead\<close> takes a work
  request id, allocates a block, puts the context into the table and posts a signaled
  \<open>IBV_WR_RDMA_READ\<close> work request whose remote address and key come from \<open>remote_mr_\<close>
  as it is; it returns when the verb succeeds.
\<close>

theorem async_read_has_no_connected_check:
  assumes "\<not> is_connected c"
  shows "AsyncSend V b c = Died ''Send: not connected.'' c \<and>
    (\<exists>wr. trace (connection_of (AsyncRead V offset len c)) =
             trace c @ [Ctx_emplace (next_wr_id c) \<lparr>block = blocks_handed_out c\<rparr>,
                        Call_ibv_post_send wr] @
             (if ibv_post_send V wr = 0 then [Stderr ''POST --> (READ WR)''] else []) \<and>
           send_wr_id wr = next_wr_id c \<and> opcode wr = IBV_WR_RDMA_READ \<and> send_signaled wr \<and>
           rdma_remote_addr wr = addr (remote_mr c) + offset \<and>
           rdma_rkey wr = rkey (remote_mr c) \<and>
           blocks_handed_out (connection_of (AsyncRead V offset len c)) = blocks_handed_out c + 1 \<and>
           wr_ctx (connection_of (AsyncRead V offset len c)) =
             emplace (next_wr_id c) \<lparr>block = blocks_handed_out c\<rparr> (wr_ctx c) \<and>
           \<not> is_connected (connection_of (AsyncRead V offset len c)) \<and>
           (AsyncRead V offset len c = Returned (connection_of (AsyncRead V offset len c))
              \<longleftrightarrow> ibv_post_send V wr = 0))"
  using assms by (simp add: AsyncSend_def AsyncRead_def Let_def Allocate_def emit_def)

text \<open>
  Inputs for C9: a connection as constructed, whose \<open>remote_mr_\<close> was never received.
\<close>

theorem async_read_has_no_connected_check_witness:
  "AsyncSend verbs_succeed \<lparr>block = 0\<rparr> (Connection_constructed False 1)
     = Died ''Send: not connected.'' (Connection_constructed False 1) \<and>
   (\<exists>c'. AsyncRead verbs_succeed 16 32 (Connection_constructed False 1) = Returned c' \<and>
      trace c' =
        [Ctx_emplace 0 \<lparr>block = 0\<rparr>,
         Call_ibv_post_send
           \<lparr>send_wr_id = 0, opcode = IBV_WR_RDMA_READ,
            send_sg_list = [\<lparr>sge_addr = 4, sge_length = 32, lkey = 0\<rparr>],
            send_signaled = True, rdma_remote_addr = 16, rdma_rkey = 0\<rparr>,
         Stderr ''POST --> (READ WR)''])"
proof -
  let ?c = "Connection_constructed False 1"
  have n: "\<not> is_connected ?c" by (simp add: Connection_constructed_def)
  from async_read_has_no_connected_check [OF n, of verbs_succeed "\<lparr>block = 0\<rparr>" 16 32]
  have 1: "AsyncSend verbs_succeed \<lparr>block = 0\<rparr> ?c = Died ''Send: not connected.'' ?c" by blast
  have 2: "AsyncRead verbs_succeed 16 32 ?c
             = Returned (connection_of (AsyncRead verbs_succeed 16 32 ?c))"
    by (simp add: connection_eval)
  have 3: "trace (connection_of (AsyncRead verbs_succeed 16 32 ?c)) =
        [Ctx_emplace 0 \<lparr>block = 0\<rparr>,
         Call_ibv_post_send
           \<lparr>send_wr_id = 0, opcode = IBV_WR_RDMA_READ,
            send_sg_list = [\<lparr>sge_addr = 4, sge_length = 32, lkey = 0\<rparr>],
            send_signaled = True, rdma_remote_addr = 16, rdma_rkey = 0\<rparr>,
         Stderr ''POST --> (READ WR)'']"
    by (simp add: connection_eval)
  show ?thesis using 1 2 3 by blast
qed

lemma no_on_error_refl [simp]: "no_on_error c c"
  by (simp add: no_on_error_def)

lemma no_on_error_trans: "no_on_error c c1 \<Longrightarrow> no_on_error c1 c2 \<Longrightarrow> no_on_error c c2"
  by (auto simp: no_on_error_def)

lemma no_on_error_emit:
  "filter is_on_error es = [] \<Longrightarrow> no_on_error c (emit es c)"
  by (simp add: no_on_error_def emit_def)

lemma no_on_error_and_then:
  assumes "no_on_error c (connection_of r)"
    and "\<And>c1. no_on_error c1 (connection_of (k c1))"
  shows "no_on_error c (connection_of (and_then r k))"
  using assms by (cases r) (auto intro: no_on_error_trans)

lemma no_on_error_PostReceive: "no_on_error c (connection_of (PostReceive V c))"
  using PostReceive_effect [of c V] by (auto simp: no_on_error_def)

lemma no_on_error_post_receives: "no_on_error c (connection_of (post_receives V n c))"
proof (induction n arbitrary: c)
  case 0
  then show ?case by simp
next
  case (Suc n)
  show ?case using no_on_error_PostReceive Suc.IH
    by (simp add: no_on_error_and_then)
qed

lemma no_on_error_emit_after:
  "no_on_error c c1 \<Longrightarrow> filter is_on_error es = [] \<Longrightarrow> no_on_error c (emit es c1)"
  by (auto simp: no_on_error_def emit_def)

lemma no_on_error_MarkConnected: "no_on_error c (connection_of (MarkConnected V k c))"
proof -
  let ?c2 = "emit [Stderr ''qp_state: ...''] (emit [Call_ibv_query_qp] c)"
  let ?start = "if poller_type ?c2 = kBlocking
                   then (if ibv_req_notify_cq V \<noteq> 0
                         then Died ''ibv_req_notify_cq'' (emit [Call_ibv_req_notify_cq] ?c2)
                         else Returned (emit [Call_ibv_req_notify_cq, Start_poller_thread kBlocking] ?c2))
                   else Returned (emit [Start_poller_thread kSpinning] ?c2)"
  have c2: "no_on_error c ?c2" by (intro no_on_error_emit_after) simp_all
  have a: "no_on_error c1 (connection_of (and_then (post_receives V k c1)
                     (\<lambda>c4. Returned (emit [Store_is_connected True] (c4\<lparr>is_connected := True\<rparr>)))))"
    for c1
    by (rule no_on_error_and_then [OF no_on_error_post_receives])
       (simp add: no_on_error_def emit_def)
  have s: "no_on_error c (connection_of ?start)"
    using c2 by (auto intro: no_on_error_emit_after)
  have m: "no_on_error c (connection_of (and_then ?start
                  (\<lambda>c3. and_then (post_receives V k c3)
                     (\<lambda>c4. Returned (emit [Store_is_connected True] (c4\<lparr>is_connected := True\<rparr>))))))"
    by (rule no_on_error_and_then [OF s a])
  show ?thesis
  proof (cases "ibv_query_qp V \<noteq> 0")
    case True
    then show ?thesis by (simp add: MarkConnected_def Let_def no_on_error_emit_after)
  next
    case q: False
    show ?thesis
    proof (cases "queried_qp_state V \<noteq> IBV_QPS_RTS")
      case True
      then show ?thesis using q c2 by (simp add: MarkConnected_def Let_def)
    next
      case False
      then show ?thesis using q m by (simp add: MarkConnected_def Let_def)
    qed
  qed
qed

lemma no_on_error_RTR: "no_on_error c (connection_of (TransitQueuePairToRTR V msg c))"
  by (simp add: TransitQueuePairToRTR_def Let_def no_on_error_emit_after)

lemma no_on_error_RTS: "no_on_error c (connection_of (TransitQueuePairToRTS V c))"
  by (simp add: TransitQueuePairToRTS_def Let_def no_on_error_emit_after)

lemma no_on_error_RecvMemoryRegion_callback:
  "no_on_error c (connection_of (RecvMemoryRegion_callback V k err msg c))"
proof -
  let ?c1 = "emit [Stderr ''got memory region''] (c\<lparr>remote_mr := payload_mr msg\<rparr>)"
  have 1: "no_on_error c ?c1" by (simp add: no_on_error_def emit_def)
  have "no_on_error c (connection_of (and_then (MarkConnected V k ?c1)
          (\<lambda>c1. Returned (emit [Handler_OnConnected] c1))))"
    by (rule no_on_error_and_then [OF no_on_error_trans [OF 1 no_on_error_MarkConnected]])
       (simp add: no_on_error_emit_after)
  then show ?thesis
    by (simp add: RecvMemoryRegion_callback_def no_on_error_emit_after)
qed

lemma no_on_error_RecvConnInfo_callback:
  "no_on_error c (connection_of (RecvConnInfo_callback V k err msg c))"
proof -
  let ?c0 = "emit [Stderr ''Received peer ConnInfo''] c"
  have 0: "no_on_error c ?c0" by (simp add: no_on_error_emit_after)
  have srv: "no_on_error c2 (connection_of (and_then (MarkConnected V k c2)
                          (\<lambda>c3. SendMemoryRegion (emit [Handler_OnConnected] c3))))" for c2
    by (rule no_on_error_and_then [OF no_on_error_MarkConnected])
       (simp add: SendMemoryRegion_def no_on_error_def emit_def)
  have cli: "no_on_error c2 (connection_of (RecvMemoryRegion c2))" for c2
    by (simp add: RecvMemoryRegion_def no_on_error_emit_after)
  have k2: "no_on_error c2 (connection_of (if is_server c2
                   then and_then (MarkConnected V k c2)
                          (\<lambda>c3. SendMemoryRegion (emit [Handler_OnConnected] c3))
                   else RecvMemoryRegion c2))" for c2
    using srv cli by simp
  have k1: "no_on_error c1 (connection_of (and_then (TransitQueuePairToRTS V c1)
             (\<lambda>c2. if is_server c2
                   then and_then (MarkConnected V k c2)
                          (\<lambda>c3. SendMemoryRegion (emit [Handler_OnConnected] c3))
                   else RecvMemoryRegion c2)))" for c1
    by (rule no_on_error_and_then [OF no_on_error_RTS k2])
  have "no_on_error c (connection_of (and_then (TransitQueuePairToRTR V (payload_conn msg) ?c0)
          (\<lambda>c1. and_then (TransitQueuePairToRTS V c1)
             (\<lambda>c2. if is_server c2
                   then and_then (MarkConnected V k c2)
                          (\<lambda>c3. SendMemoryRegion (emit [Handler_OnConnected] c3))
                   else RecvMemoryRegion c2))))"
    by (rule no_on_error_and_then [OF no_on_error_trans [OF 0 no_on_error_RTR] k1])
  then show ?thesis
    by (simp add: RecvConnInfo_callback_def no_on_error_emit_after)
qed

text \<open>
  C4, as amended. A failed read or a message of the wrong type ends the process through
  \<open>die\<close> in the callback of \<open>RecvConnInfo\<close>, and is written to \<open>stderr\<close> in the
  callback of \<open>RecvMemoryRegion\<close>, which then returns and leaves the connection as it was,
  not connected. In neither case is anything else done: no handler operation is called and no
  read is started again. Whatever their input, the two callbacks never call \<open>on_error\<close>.
\<close>

theorem handshake_errors_not_reported_to_handler:
  "(err \<noteq> 0 \<longrightarrow>
      RecvConnInfo_callback V k err msg c =
        Died ''RecvConnInfo AsyncRead callback'' (emit [Stderr ''RecvConnInfo: AsyncRead err''] c)) \<and>
   (err = 0 \<and> msg_type msg \<noteq> kConnInfo \<longrightarrow>
      RecvConnInfo_callback V k err msg c =
        Died ''RecvConnInfo AsyncRead callback''
          (emit [Stderr ''RecvConnInfo: AsyncRead msg->type''] c)) \<and>
   (err \<noteq> 0 \<longrightarrow>
      RecvMemoryRegion_callback V k err msg c =
        Returned (emit [Stderr ''RecvMemoryRegion: AsyncRead err''] c)) \<and>
   (err = 0 \<and> msg_type msg \<noteq> kMemoryRegion \<longrightarrow>
      RecvMemoryRegion_callback V k err msg c =
        Returned (emit [Stderr ''RecvMemoryRegion: AsyncRead msg->type''] c)) \<and>
   filter is_on_error (trace (connection_of (RecvConnInfo_callback V k err msg c)))
     = filter is_on_error (trace c) \<and>
   filter is_on_error (trace (connection_of (RecvMemoryRegion_callback V k err msg c)))
     = filter is_on_error (trace c)"
proof -
  have 1: "err \<noteq> 0 \<longrightarrow>
      RecvConnInfo_callback V k err msg c =
        Died ''RecvConnInfo AsyncRead callback'' (emit [Stderr ''RecvConnInfo: AsyncRead err''] c)"
    "err = 0 \<and> msg_type msg \<noteq> kConnInfo \<longrightarrow>
      RecvConnInfo_callback V k err msg c =
        Died ''RecvConnInfo AsyncRead callback''
          (emit [Stderr ''RecvConnInfo: AsyncRead msg->type''] c)"
    by (simp_all add: RecvConnInfo_callback_def)
  have 2: "err \<noteq> 0 \<longrightarrow>
      RecvMemoryRegion_callback V k err msg c =
        Returned (emit [Stderr ''RecvMemoryRegion: AsyncRead err''] c)"
    "err = 0 \<and> msg_type msg \<noteq> kMemoryRegion \<longrightarrow>
      RecvMemoryRegion_callback V k err msg c =
        Returned (emit [Stderr ''RecvMemoryRegion: AsyncRead msg->type''] c)"
    by (simp_all add: RecvMemoryRegion_callback_def)
  have 3: "filter is_on_error (trace (connection_of (RecvConnInfo_callback V k err msg c)))
     = filter is_on_error (trace c)"
    using no_on_error_RecvConnInfo_callback [of c V k err msg] by (auto simp: no_on_error_def)
  have 4: "filter is_on_error (trace (connection_of (RecvMemoryRegion_callback V k err msg c)))
     = filter is_on_error (trace c)"
    using no_on_error_RecvMemoryRegion_callback [of c V k err msg] by (auto simp: no_on_error_def)
  show ?thesis using 1 2 3 4 by blast
qed

text \<open>
  Inputs for C4: a message of the wrong type for \<open>RecvConnInfo\<close>, a failed read for
  \<open>RecvMemoryRegion\<close>.
\<close>

theorem handshake_errors_not_reported_to_handler_witness:
  "RecvConnInfo_callback verbs_succeed 2 0 (example_message kMemoryRegion)
     (Connection_constructed False 1)
     = Died ''RecvConnInfo AsyncRead callback''
         (emit [Stderr ''RecvConnInfo: AsyncRead msg->type''] (Connection_constructed False 1)) \<and>
   RecvMemoryRegion_callback verbs_succeed 2 104 (example_message kMemoryRegion)
     (Connection_constructed False 1)
     = Returned (emit [Stderr ''RecvMemoryRegion: AsyncRead err''] (Connection_constructed False 1))"
proof -
  let ?c = "Connection_constructed False 1"
  have a: "(0::int) = 0 \<and> msg_type (example_message kMemoryRegion) \<noteq> kConnInfo"
    by (simp add: example_message_def)
  have b: "(104::int) \<noteq> 0" by simp
  from handshake_errors_not_reported_to_handler
      [where err = 0 and msg = "example_message kMemoryRegion" and V = verbs_succeed and k = 2
         and c = ?c] a
  have 1: "RecvConnInfo_callback verbs_succeed 2 0 (example_message kMemoryRegion) ?c
     = Died ''RecvConnInfo AsyncRead callback''
         (emit [Stderr ''RecvConnInfo: AsyncRead msg->type''] ?c)"
    by blast
  from handshake_errors_not_reported_to_handler
      [where err = 104 and msg = "example_message kMemoryRegion" and V = verbs_succeed and k = 2
         and c = ?c] b
  have 2: "RecvMemoryRegion_callback verbs_succeed 2 104 (example_message kMemoryRegion) ?c
     = Returned (emit [Stderr ''RecvMemoryRegion: AsyncRead err''] ?c)"
    by blast
  show ?thesis using 1 2 by blast
qed

text \<open>
  C4 as the claim states it fails: after a failed read (error 104) the callback of
  \<open>RecvConnInfo\<close> has ended the process and the callback of \<open>RecvMemoryRegion\<close> has
  returned, and in both the only thing done is a line on \<open>stderr\<close>: \<open>on_error\<close> was
  not called.
\<close>

theorem handshake_error_without_on_error_counterexample:
  "RecvConnInfo_callback verbs_succeed 2 104 (example_message kConnInfo)
     (Connection_constructed False 1)
     = Died ''RecvConnInfo AsyncRead callback''
         ((Connection_constructed False 1)\<lparr>trace := [Stderr ''RecvConnInfo: AsyncRead err'']\<rparr>) \<and>
   RecvMemoryRegion_callback verbs_succeed 2 104 (example_message kMemoryRegion)
     (Connection_constructed False 1)
     = Returned
         ((Connection_constructed False 1)\<lparr>trace := [Stderr ''RecvMemoryRegion: AsyncRead err'']\<rparr>)"
  by (simp add: RecvConnInfo_callback_def RecvMemoryRegion_callback_def emit_def
      Connection_constructed_def)

end
